theory Spec2Isabelle
  imports Complex_Main
begin

section \<open>Failures\<close>

text \<open>
  The tool ends a run in two ways besides returning: it prints a message and calls
  \<^verbatim>\<open>sys.exit()\<close>, or a Python exception escapes. Neither is caught on the
  \<^verbatim>\<open>provision-list\<close> path (\<^verbatim>\<open>main\<close> catches only \<^verbatim>\<open>EOFError\<close> and
  \<^verbatim>\<open>KeyboardInterrupt\<close>), so both end the process. Every such point of the modelled
  functions is a value of \<open>failure\<close>.
\<close>

datatype exit_msg =
    ListEmpty           \<comment> \<open>"List is empty."\<close>
  | NoEntriesReady      \<comment> \<open>"List has no entries ready to provision."\<close>
  | NoAPCapable         \<comment> \<open>"No AP capable dd-wrt device found."\<close>
  | NoSTACapable        \<comment> \<open>"No client-mode capable dd-wrt device found."\<close>
  | AttemptsExhausted   \<comment> \<open>"Device failed to take AP programming instructions after 10 attemps."\<close>
  | DeviceNotFound      \<comment> \<open>"Failed to find device on network"\<close>

datatype pyexc =
  IndexError | KeyError | TypeError | JSONDecodeError | CommandError | UnboundLocalError

datatype failure = SysExit exit_msg | Raised pyexc

section \<open>Control devices (dd-wrt routers)\<close>

text \<open>
  A learned router of \<^verbatim>\<open>router_db\<close> is a dict holding its name, address, password and
  hardware identity, and under the key of each learned mode (\<^verbatim>\<open>'ap'\<close>, \<^verbatim>\<open>'sta'\<close>)
  the nvram values read in that mode. The mode keys are kept as an association list
  \<open>profiles\<close>, so that \<^verbatim>\<open>'ap' in router\<close> is \<open>map_of (profiles r) ''ap'' \<noteq> None\<close>.
  A connection \<^verbatim>\<open>cn\<close> adds the mode the device reported when it was connected.
\<close>

record router =
  name :: string
  address :: string
  password :: string
  et0macaddr :: string
  profiles :: "(string \<times> (string \<times> string) list) list"

record node =
  router :: router
  current_mode :: string

definition has_profile :: "string \<Rightarrow> node \<Rightarrow> bool" where
  "has_profile m cn = (map_of (profiles (router cn)) m \<noteq> None)"

subsection \<open>\<^verbatim>\<open>ddwrt_choose_roles\<close>\<close>

text \<open>
  The four index lists built by the loop over \<^verbatim>\<open>range(len(nodes))\<close>.
\<close>

definition capable :: "string \<Rightarrow> node list \<Rightarrow> nat list" where
  "capable m nodes = filter (\<lambda>i. has_profile m (nodes ! i)) [0..<length nodes]"

definition in_mode :: "string \<Rightarrow> node list \<Rightarrow> nat list" where
  "in_mode m nodes = filter (\<lambda>i. current_mode (nodes ! i) = m) [0..<length nodes]"

text \<open>\<^verbatim>\<open>xs[0]\<close>: raises \<^verbatim>\<open>IndexError\<close> on the empty list.\<close>

definition first :: "nat list \<Rightarrow> failure + nat" where
  "first xs = (case xs of [] \<Rightarrow> Inl (Raised IndexError) | x # _ \<Rightarrow> Inr x)"

text \<open>
  The function takes the connections \<open>nodes\<close> (the source first connects to every named
  router) and returns the pair of positions \<open>(ap_node, sta_node)\<close> in \<open>nodes\<close>; the source
  returns \<^verbatim>\<open>(nodes[ap_node], nodes[sta_node])\<close>, two references into the same list, so
  two slots hold the same connection object exactly when the positions are equal.
\<close>

definition ddwrt_choose_roles :: "node list \<Rightarrow> failure + (nat \<times> nat)" where
  "ddwrt_choose_roles nodes =
    (let ap_capable = capable ''ap'' nodes;
         sta_capable = capable ''sta'' nodes;
         current_ap = in_mode ''ap'' nodes;
         current_sta = in_mode ''sta'' nodes
     in
       if length ap_capable = 0 then Inl (SysExit NoAPCapable)
       else if length sta_capable = 0 then Inl (SysExit NoSTACapable)
       else if length nodes > 1 then
         (if length ap_capable < 2 then
            (case first ap_capable of Inl e \<Rightarrow> Inl e
             | Inr ap_node \<Rightarrow> Inr (ap_node, (ap_node + 1) mod 2))
          else if length sta_capable < 2 then
            (case first sta_capable of Inl e \<Rightarrow> Inl e
             | Inr sta_node \<Rightarrow> Inr ((sta_node + 1) mod 2, sta_node))
          else if length current_ap < 2 then
            (case first current_ap of Inl e \<Rightarrow> Inl e
             | Inr ap_node \<Rightarrow> Inr (ap_node, (ap_node + 1) mod 2))
          else if length current_sta < 2 then
            (case first sta_capable of Inl e \<Rightarrow> Inl e
             | Inr sta_node \<Rightarrow> Inr ((sta_node + 1) mod 2, sta_node))
          else Inr (0, length nodes - 1))
       else Inr (0, length nodes - 1))"

subsection \<open>\<^verbatim>\<open>ddwrt_program_mode\<close>, \<^verbatim>\<open>ddwrt_set_ap_mode\<close>, \<^verbatim>\<open>ddwrt_set_sta_mode\<close>\<close>

text \<open>
  What reaches a control device, in the order it is sent: a command line run through
  \<^verbatim>\<open>ddwrt_get_single_line_result\<close>, the HTTP post of \<^verbatim>\<open>ddwrt_apply\<close>
  (\<^verbatim>\<open>action=ApplyTake\<close>, to the router's address), the pause that follows it, and the
  prompt resynchronisation of \<^verbatim>\<open>ddwrt_sync_connection\<close>.
\<close>

datatype action =
    Telnet string
  | ApplyTake string
  | Sleep nat
  | Resync

text \<open>
  \<^verbatim>\<open>ddwrt_get_single_line_result\<close> raises when the device answers a command with text
  on stderr or with several lines. Which commands a device answers so is the environment's
  choice: the parameter \<open>rejects\<close>. A step of the programming sequence is either a command
  line or the \<^verbatim>\<open>KeyError\<close> of the dictionary lookup that would have built it.
\<close>

fun run_steps ::
  "(string \<Rightarrow> bool) \<Rightarrow> (failure + string) list \<Rightarrow> action list \<Rightarrow> failure option \<times> action list"
where
  "run_steps rejects [] sent = (None, sent)"
| "run_steps rejects (Inl e # steps) sent = (Some e, sent)"
| "run_steps rejects (Inr c # steps) sent =
     (if rejects c then (Some (Raised CommandError), sent @ [Telnet c])
      else run_steps rejects steps (sent @ [Telnet c]))"

definition nvram_set :: "string \<Rightarrow> string \<Rightarrow> string" where
  "nvram_set k v = ''nvram set '' @ k @ ''='' @ v"

definition nvram_unset :: "string \<Rightarrow> string" where
  "nvram_unset k = ''nvram unset '' @ k"

definition nvram_commit :: string where
  "nvram_commit = ''nvram commit 2>/dev/null''"

definition restart_services :: string where
  "restart_services =
     ''stopservice nas;stopservice wlconf 2>/dev/null;startservice wlconf 2>/dev/null;startservice nas''"

definition radio_cycle :: string where
  "radio_cycle = ''wl radio off; wl radio on''"

text \<open>\<^verbatim>\<open>"nvram set " + k + '=' + cn['router'][mode][k]\<close>, with both lookups.\<close>

definition from_db_step :: "node \<Rightarrow> string \<Rightarrow> string \<Rightarrow> failure + string" where
  "from_db_step cn mode k =
     (case map_of (profiles (router cn)) mode of
        None \<Rightarrow> Inl (Raised KeyError)
      | Some profile \<Rightarrow>
          (case map_of profile k of
             None \<Rightarrow> Inl (Raised KeyError)
           | Some v \<Rightarrow> Inr (nvram_set k v)))"

text \<open>
  The result is the failure that ended the call (if any), the connection (its
  \<open>current_mode\<close> is the only field written) and \<open>sent\<close> extended by what the call sent.
  \<^verbatim>\<open>pgm\<close> is a dict literal in both callers, kept in insertion order.
\<close>

definition ddwrt_program_mode ::
  "(string \<Rightarrow> bool) \<Rightarrow> node \<Rightarrow> (string \<times> string) list \<Rightarrow> string list \<Rightarrow> string list \<Rightarrow>
     action list \<Rightarrow> failure option \<times> node \<times> action list"
where
  "ddwrt_program_mode rejects cn pgm from_db deletes sent =
     (case run_steps rejects (map (\<lambda>(k, v). Inr (nvram_set k v)) pgm) sent of
        (Some e, sent1) \<Rightarrow> (Some e, cn, sent1)
      | (None, sent1) \<Rightarrow>
     (case map_of pgm ''wl_mode'' of
        None \<Rightarrow> (Some (Raised KeyError), cn, sent1)
      | Some mode \<Rightarrow>
     (case run_steps rejects
             (map (from_db_step cn mode) from_db
              @ map (\<lambda>k. Inr (nvram_unset k)) deletes
              @ [Inr nvram_commit]) sent1 of
        (Some e, sent2) \<Rightarrow> (Some e, cn, sent2)
      | (None, sent2) \<Rightarrow>
          if current_mode cn = mode then
            (case run_steps rejects [Inr restart_services] sent2 of
               (r, sent3) \<Rightarrow> (r, cn, sent3))
          else
            (case run_steps rejects [Inr radio_cycle]
                    (sent2 @ [ApplyTake (address (router cn)), Sleep 5, Resync]) of
               (r, sent3) \<Rightarrow> (r, cn\<lparr>current_mode := mode\<rparr>, sent3)))))"

definition ap_pgm :: "string \<Rightarrow> string \<Rightarrow> (string \<times> string) list" where
  "ap_pgm ssid pw =
     [(''pptp_use_dhcp'', ''1''), (''wan_gateway'', ''0.0.0.0''), (''wan_ipaddr'', ''0.0.0.0''),
      (''wan_netmask'', ''0.0.0.0''), (''wan_proto'', ''disabled''), (''wl0_akm'', ''psk psk2''),
      (''wl0_mode'', ''ap''), (''wl0_nctrlsb'', ''none''), (''wl0_security_mode'', ''psk psk2''),
      (''wl0_ssid'', ssid), (''wl_ssid'', ssid), (''wl0_wpa_psk'', pw),
      (''wl_mode'', ''ap''), (''dns_redirect'', ''1''), (''dnsmasq_enable'', ''0'')]"

definition ddwrt_set_ap_mode ::
  "(string \<Rightarrow> bool) \<Rightarrow> node \<Rightarrow> string \<Rightarrow> string \<Rightarrow> action list \<Rightarrow>
     failure option \<times> node \<times> action list"
where
  "ddwrt_set_ap_mode rejects cn ssid pw sent =
     ddwrt_program_mode rejects cn (ap_pgm ssid pw)
       [''wl0_hw_rxchain'', ''wl0_hw_txchain'', ''wan_hwaddr'']
       [''wan_ipaddr_buf'', ''wan_ipaddr_static'', ''wan_netmask_static'', ''wl0_vifs'']
       sent"

definition sta_pgm :: "string \<Rightarrow> (string \<times> string) list" where
  "sta_pgm ssid =
     [(''pptp_use_dhcp'', ''0''), (''wan_gateway'', ''192.168.33.1''),
      (''wan_ipaddr'', ''192.168.33.10''),
      (''wan_ipaddr_static'', ''..''), (''wan_netmask'', ''255.255.255.0''),
      (''wan_netmask_static'', ''..''),
      (''wan_proto'', ''static''), (''wl0_akm'', ''disabled''), (''wl0_mode'', ''sta''),
      (''wl0_nctrlsb'', []), (''wl0_security_mode'', ''disabled''), (''wl0_vifs'', []),
      (''wl_mode'', ''sta''), (''wl0_ssid'', ssid), (''wl_ssid'', ssid),
      (''dns_redirect'', ''1''), (''dnsmasq_enable'', ''0''),
      (''wan_ipaddr_buf'', ''192.168.33.10'')]"

definition ddwrt_set_sta_mode ::
  "(string \<Rightarrow> bool) \<Rightarrow> node \<Rightarrow> string \<Rightarrow> action list \<Rightarrow> failure option \<times> node \<times> action list"
where
  "ddwrt_set_sta_mode rejects cn ssid sent =
     ddwrt_program_mode rejects cn (sta_pgm ssid)
       [''sta_ifname'', ''wl0_hw_rxchain'', ''wl0_hw_txchain'', ''wan_hwaddr'']
       [''wl0_wpa_psk'']
       sent"

section \<open>Convergence: waiting for the factory SSID to drop\<close>

text \<open>
  The loop of \<^verbatim>\<open>provision_list\<close> headed "wait for site_survey to drop the device":
  \<^verbatim>\<open>
  passes = 0
  misses = 0
  while misses < 3 and passes < 60:
      time.sleep( 1 )
      passes += 1
      check_ssids = ddwrt_discover( ap_node, args.prefix )
      if device_ssids[ 0 ] in check_ssids: misses = 0
      else: misses += 1
  \<close>
  The environment is the list \<open>scans\<close> of the results of the successive surveys. The
  function returns \<open>passes\<close>, \<open>misses\<close> and the seconds slept when the loop ends, and
  \<open>None\<close> when the loop asks for a survey that the list does not hold.
\<close>

fun wait_for_drop ::
  "string \<Rightarrow> string list list \<Rightarrow> nat \<Rightarrow> nat \<Rightarrow> nat \<Rightarrow> (nat \<times> nat \<times> nat) option"
where
  "wait_for_drop ssid scans passes misses slept =
     (if misses < 3 \<and> passes < 60 then
        (case scans of
           [] \<Rightarrow> None
         | check_ssids # rest \<Rightarrow>
             wait_for_drop ssid rest (passes + 1)
               (if ssid \<in> set check_ssids then 0 else misses + 1) (slept + 1))
      else Some (passes, misses, slept))"

declare wait_for_drop.simps [simp del]

section \<open>Firmware update: \<^verbatim>\<open>flash_device\<close>\<close>

text \<open>
  \<^verbatim>\<open>GET /ota\<close> answers a JSON document with the keys \<^verbatim>\<open>status\<close> and
  \<^verbatim>\<open>old_version\<close>. \<^verbatim>\<open>get_url\<close> returns the document, or \<^verbatim>\<open>None\<close> after five
  failed tries.
\<close>

record ota_reply =
  status :: string
  old_version :: string

text \<open>
  Every \<^verbatim>\<open>return\<close> of \<^verbatim>\<open>flash_device\<close>, named after the message printed before it.
  Two of them share the message after the loop ("possible OTA failure ... still has"):
  \<open>VersionUnchanged\<close> is reached through \<^verbatim>\<open>break\<close>, \<open>TimedOut\<close> when the loop
  condition \<^verbatim>\<open>time.time() < start_time + ota_timeout\<close> fails.
\<close>

datatype ota_exit =
    NoContact          \<comment> \<open>"Could not get current firmware version": False\<close>
  | UpToDate           \<comment> \<open>"Device is already up-to-date": True\<close>
  | AlreadyUpdating    \<comment> \<open>'Error: Device already shows "updating"': False\<close>
  | NotFlashed         \<comment> \<open>\<^verbatim>\<open>ota_flash\<close> gave nothing (or dry run): False\<close>
  | Unchecked          \<comment> \<open>\<^verbatim>\<open>ota_timeout == 0\<close>: True\<close>
  | PollLost           \<comment> \<open>\<^verbatim>\<open>get_url\<close> gave nothing while polling: False\<close>
  | Updated            \<comment> \<open>"Success. Device ... updated from ... to ...": True\<close>
  | UnexpectedBuild    \<comment> \<open>"still has unexpected build, not matching manifest": False\<close>
  | VersionUnchanged   \<comment> \<open>"possible OTA failure ... still has", after \<^verbatim>\<open>break\<close>: False\<close>
  | NeverUpdating      \<comment> \<open>'has never shown status "updating"': False\<close>
  | TimedOut           \<comment> \<open>"possible OTA failure ... still has", time used up: False\<close>

fun returns :: "ota_exit \<Rightarrow> bool" where
  "returns UpToDate = True"
| "returns Unchecked = True"
| "returns Updated = True"
| "returns _ = False"

text \<open>\<^verbatim>\<open>not new_version\<close>: \<^verbatim>\<open>None\<close> or the empty string.\<close>

definition no_version :: "string option \<Rightarrow> bool" where
  "no_version new_version = (new_version = None \<or> new_version = Some [])"

definition ota_check_url :: "string \<Rightarrow> string" where
  "ota_check_url addr = ''http://'' @ addr @ ''/ota''"

definition ota_url :: "string \<Rightarrow> string \<Rightarrow> string" where
  "ota_url addr fw =
     (if fw = ''LATEST'' then ''http://'' @ addr @ ''/ota?update=1''
      else ''http://'' @ addr @ ''/ota?url='' @ fw)"

text \<open>
  The polling loop. A poll of the environment is the clock reading \<^verbatim>\<open>time.time()\<close> of
  one evaluation of the loop condition, paired with what \<^verbatim>\<open>get_url\<close> returns in the pass
  that follows when the condition holds. \<open>deadline\<close> is
  \<^verbatim>\<open>start_time + ota_timeout\<close>, \<open>result\<close> the document read before the update was
  triggered, \<open>urls\<close> the requests sent so far. After the loop the source prints
  \<^verbatim>\<open>new_result['old_version']\<close>, a name that is bound by the first pass only.
\<close>

fun ota_poll ::
  "rat \<Rightarrow> string option \<Rightarrow> ota_reply \<Rightarrow> string \<Rightarrow> bool \<Rightarrow> nat \<Rightarrow> string list \<Rightarrow>
     (rat \<times> ota_reply option) list \<Rightarrow> ((failure + ota_exit) \<times> string list) option"
where
  "ota_poll deadline new_version result url seen_updating passes urls [] = None"
| "ota_poll deadline new_version result url seen_updating passes urls ((now, reply) # polls) =
     (if \<not> now < deadline then
        (if passes = 0 then Some (Inl (Raised UnboundLocalError), urls)
         else Some (Inr TimedOut, urls))
      else
        (case reply of
           None \<Rightarrow> Some (Inr PollLost, urls @ [url])
         | Some new_result \<Rightarrow>
             if status new_result = ''updating'' then
               ota_poll deadline new_version result url True (passes + 1) (urls @ [url]) polls
             else if seen_updating then
               (if no_version new_version \<or> old_version result \<noteq> old_version new_result then
                  (if no_version new_version \<or> Some (old_version new_result) = new_version
                   then Some (Inr Updated, urls @ [url])
                   else Some (Inr UnexpectedBuild, urls @ [url]))
                else Some (Inr VersionUnchanged, urls @ [url]))
             else if passes + 1 > 10 then Some (Inr NeverUpdating, urls @ [url])
             else ota_poll deadline new_version result url False (passes + 1) (urls @ [url]) polls))"

text \<open>
  What the device and the clock do during one call: the answer to the first read, whether
  the update request was answered, the clock when polling starts, and the polls.
\<close>

record ota_env =
  check_reply :: "ota_reply option"
  flash_answered :: bool
  start_time :: rat
  polls :: "(rat \<times> ota_reply option) list"

text \<open>
  \<^verbatim>\<open>flash_device( addr, pause_time, verbose, ota, ota_timeout, new_version, dry_run )\<close>.
  \<^verbatim>\<open>pause_time\<close> and \<^verbatim>\<open>verbose\<close> set only how long the call sleeps and what it prints;
  the sleeps show in the clock readings of the environment. The result pairs the exit with
  the URLs requested, in order.
\<close>

definition flash_device ::
  "string \<Rightarrow> string \<Rightarrow> int \<Rightarrow> string option \<Rightarrow> bool \<Rightarrow> ota_env \<Rightarrow>
     ((failure + ota_exit) \<times> string list) option"
where
  "flash_device addr ota ota_timeout new_version dry_run env =
     (let url = ota_check_url addr in
      case check_reply env of
        None \<Rightarrow> Some (Inr NoContact, [url])
      | Some result \<Rightarrow>
          if Some (old_version result) = new_version then Some (Inr UpToDate, [url])
          else if status result = ''updating'' then Some (Inr AlreadyUpdating, [url])
          else if dry_run then Some (Inr NotFlashed, [url])
          else if \<not> flash_answered env then Some (Inr NotFlashed, [url, ota_url addr ota])
          else if ota_timeout = 0 then Some (Inr Unchecked, [url, ota_url addr ota])
          else ota_poll (start_time env + of_int ota_timeout) new_version result url False 0
                 [url, ota_url addr ota] (polls env))"

section \<open>The instruction queue and \<^verbatim>\<open>provision_list\<close>\<close>

subsection \<open>Records and stores\<close>

text \<open>
  The device's \<^verbatim>\<open>/status\<close> document, as far as it is read: \<^verbatim>\<open>status['mac']\<close> and
  \<^verbatim>\<open>status['wifi_sta']['ip']\<close>. The \<^verbatim>\<open>status\<close> key of a record holds what
  \<^verbatim>\<open>get_status\<close> returned (\<^verbatim>\<open>None\<close> when the device could not be read) or, after a
  firmware update whose status read failed, the empty dict.
\<close>

record dev_status =
  mac :: string
  wifi_sta_ip :: string

datatype status_value = Null | EmptyDict | Status dev_status

text \<open>
  An instruction is a dict; a field is \<open>None\<close> when the key is absent. The keys are the
  ones \<^verbatim>\<open>provision_list\<close> and \<^verbatim>\<open>finish_up_device\<close> read or write; \<open>other\<close>
  holds the remaining imported keys (Label, Tags, DeviceName, LatLng, TZ, Access, ProbeIP),
  which are carried along unchanged.
\<close>

record instruction =
  SSID :: "string option"
  Password :: "string option"
  StaticIP :: "string option"
  NetMask :: "string option"
  Gateway :: "string option"
  Group :: "string option"
  other :: "(string \<times> string) list"
  InsertTime :: "rat option"
  factory_ssid :: "string option"
  InProgressTime :: "rat option"
  CompletedTime :: "rat option"
  ConfirmedTime :: "rat option"
  status_key :: "status_value option"
  settings_key :: "string option"
  Origin :: "string option"
  ID :: "string option"
  IP :: "string option"

text \<open>
  The state of a run: the two global stores \<^verbatim>\<open>device_queue\<close> and \<^verbatim>\<open>device_db\<close> in
  memory, the files \<^verbatim>\<open>args.device_queue\<close> and \<^verbatim>\<open>args.device_db\<close> that
  \<^verbatim>\<open>write_json_file\<close> rewrites from them, the connections to the control devices with
  the programming commands sent to them (surveys and relayed HTTP requests are answers of
  the environment and are not recorded), and the two counters of \<^verbatim>\<open>provision_list\<close>. A record of the
  queue is mutated in place: the model writes it back at its position. \<^verbatim>\<open>device_db\<close>
  is keyed by the device's MAC address.
\<close>

record world =
  device_queue :: "instruction list"
  device_db :: "string \<rightharpoonup> instruction"
  queue_file :: "instruction list"
  db_file :: "string \<rightharpoonup> instruction"
  nodes :: "node list"
  sent :: "action list"
  setup_count :: nat
  success_count :: nat

text \<open>The options of the command line that the modelled path reads.\<close>

record args =
  group :: "string option"
  ota :: string
  ota_timeout :: int
  dry_run :: bool

subsection \<open>\<^verbatim>\<open>check_for_device_queue\<close>\<close>

text \<open>\<^verbatim>\<open>not group\<close>: \<^verbatim>\<open>None\<close> or the empty string.\<close>

definition no_group :: "string option \<Rightarrow> bool" where
  "no_group g = (g = None \<or> g = Some [])"

text \<open>
  Called with \<^verbatim>\<open>include_complete = False\<close>. \<open>None\<close> is the plain \<^verbatim>\<open>return\<close>.
\<close>

definition check_for_device_queue :: "instruction list \<Rightarrow> string option \<Rightarrow> failure option" where
  "check_for_device_queue dq g =
     (if length dq = 0 then Some (SysExit ListEmpty)
      else if list_ex (\<lambda>rec. CompletedTime rec = None \<and>
                 (no_group g \<or> (Group rec \<noteq> None \<and> Group rec = g))) dq
        then None
      else Some (SysExit NoEntriesReady))"

subsection \<open>The environment of one instruction\<close>

text \<open>
  What the devices and the clock do while one instruction is processed, in the order the
  code asks:
  \<^item> \<open>discoveries\<close>: the results of \<^verbatim>\<open>ddwrt_discover( sta_node, prefix )\<close>, one for each
    pass of the discovery loop;
  \<^item> \<open>t_in_progress\<close>, \<open>t_completed\<close>, \<open>t_confirmed\<close>: the three readings of
    \<^verbatim>\<open>time.time()\<close>;
  \<^item> \<open>attempts\<close>: for each programming attempt, whether the factory device answered the
    status request with a JSON document (\<^verbatim>\<open>json.loads( response[0] )\<close> raises on the
    empty line that \<^verbatim>\<open>ddwrt_wget\<close> returns otherwise), and the surveys of the wait loop;
  \<^item> \<open>located\<close>: what \<^verbatim>\<open>ddwrt_wget\<close> got from the device's settings URL on the new
    network within its 40 tries: nothing, the JSON empty string, or a settings document;
  \<^item> \<open>new_status\<close>: what \<^verbatim>\<open>get_status\<close> returned;
  \<^item> \<open>ota_run\<close>, \<open>ota_status\<close>: the environment of \<^verbatim>\<open>flash_device\<close> and the status
    read after it, used when \<^verbatim>\<open>args.ota\<close> is not empty.
\<close>

record attempt =
  status_answered :: bool
  scans :: "string list list"

datatype located = NoAnswer | EmptyString | Settings string

record episode =
  discoveries :: "string list list"
  t_in_progress :: rat
  attempts :: "attempt list"
  t_completed :: rat
  located :: located
  new_status :: "dev_status option"
  t_confirmed :: rat
  ota_run :: ota_env
  ota_status :: "dev_status option"

text \<open>
  The discovery loop \<^verbatim>\<open>while True\<close>: the first survey that is not empty gives
  \<^verbatim>\<open>device_ssids[0]\<close>; the loop sleeps \<^verbatim>\<open>args.wait_time\<close> and asks again otherwise.
\<close>

fun discover :: "string list list \<Rightarrow> string option" where
  "discover [] = None"
| "discover (device_ssids # rest) =
     (case device_ssids of [] \<Rightarrow> discover rest | ssid # _ \<Rightarrow> Some ssid)"

subsection \<open>Programming attempts\<close>

text \<open>
  \<^verbatim>\<open>rec[ k ]\<close> raises \<^verbatim>\<open>KeyError\<close> for an absent key.
\<close>

definition key :: "'a option \<Rightarrow> failure + 'a" where
  "key v = (case v of None \<Rightarrow> Inl (Raised KeyError) | Some x \<Rightarrow> Inr x)"

text \<open>Programming a connection of the run in place: \<open>nodes\<close> and \<open>sent\<close> change.\<close>

definition set_ap_mode_at :: "(string \<Rightarrow> bool) \<Rightarrow> nat \<Rightarrow> string \<Rightarrow> string \<Rightarrow> world \<Rightarrow> failure option \<times> world" where
  "set_ap_mode_at rejects i ssid pw w =
     (case ddwrt_set_ap_mode rejects (nodes w ! i) ssid pw (sent w) of
        (r, cn, s) \<Rightarrow> (r, w\<lparr>nodes := (nodes w)[i := cn], sent := s\<rparr>))"

definition set_sta_mode_at :: "(string \<Rightarrow> bool) \<Rightarrow> nat \<Rightarrow> string \<Rightarrow> world \<Rightarrow> failure option \<times> world" where
  "set_sta_mode_at rejects i ssid w =
     (case ddwrt_set_sta_mode rejects (nodes w ! i) ssid (sent w) of
        (r, cn, s) \<Rightarrow> (r, w\<lparr>nodes := (nodes w)[i := cn], sent := s\<rparr>))"

text \<open>
  \<^verbatim>\<open>ap_node[ 'router' ][ 'et0macaddr' ] != sta_node[ 'router' ][ 'et0macaddr' ]\<close>
\<close>

definition two_devices :: "nat \<times> nat \<Rightarrow> world \<Rightarrow> bool" where
  "two_devices roles w =
     (et0macaddr (router (nodes w ! fst roles)) \<noteq> et0macaddr (router (nodes w ! snd roles)))"

text \<open>
  \<^verbatim>\<open>ddwrt_set_ap_mode( ap_node, rec[ 'SSID' ], rec[ 'Password' ] )\<close>
\<close>

definition set_ap_for :: "(string \<Rightarrow> bool) \<Rightarrow> nat \<Rightarrow> instruction \<Rightarrow> world \<Rightarrow> failure option \<times> world" where
  "set_ap_for rejects i rec w =
     (case key (SSID rec) of
        Inl e \<Rightarrow> (Some e, w)
      | Inr s \<Rightarrow>
          (case key (Password rec) of
             Inl e \<Rightarrow> (Some e, w)
           | Inr p \<Rightarrow> set_ap_mode_at rejects i s p w))"

text \<open>
  The keys read when the settings URL is built: \<^verbatim>\<open>SSID\<close> and \<^verbatim>\<open>Password\<close>, and with
  a \<^verbatim>\<open>StaticIP\<close> also \<^verbatim>\<open>NetMask\<close> and \<^verbatim>\<open>Gateway\<close>.
\<close>

definition settings_keys :: "instruction \<Rightarrow> failure option" where
  "settings_keys rec =
     (if SSID rec = None \<or> Password rec = None then Some (Raised KeyError)
      else if StaticIP rec \<noteq> None \<and> (NetMask rec = None \<or> Gateway rec = None)
        then Some (Raised KeyError)
      else None)"

text \<open>
  The loop \<^verbatim>\<open>while True\<close> around one programming attempt, \<open>n\<close> being \<^verbatim>\<open>attempts\<close>
  before the pass. \<open>None\<close>: the environment holds no further attempt, or too few surveys.
\<close>

fun program_attempts ::
  "(string \<Rightarrow> bool) \<Rightarrow> nat \<times> nat \<Rightarrow> instruction \<Rightarrow> string \<Rightarrow> attempt list \<Rightarrow> nat \<Rightarrow> world \<Rightarrow>
     (failure option \<times> world) option"
where
  "program_attempts rejects roles rec ssid [] n w = None"
| "program_attempts rejects roles rec ssid (a # rest) n w =
     (let attempts = n + 1 in
      case (if two_devices roles w then set_ap_for rejects (fst roles) rec w else (None, w)) of
        (Some e, w1) \<Rightarrow> Some (Some e, w1)
      | (None, w1) \<Rightarrow>
      (case set_sta_mode_at rejects (snd roles) ssid w1 of
         (Some e, w2) \<Rightarrow> Some (Some e, w2)
       | (None, w2) \<Rightarrow>
           if \<not> status_answered a then Some (Some (Raised JSONDecodeError), w2)
           else (case settings_keys rec of Some e \<Rightarrow> Some (Some e, w2) | None \<Rightarrow>
           (case wait_for_drop ssid (scans a) 0 0 0 of
              None \<Rightarrow> None
            | Some (passes, misses, slept) \<Rightarrow>
                if misses \<ge> 3 then Some (None, w2)
                else if attempts \<ge> 10 then Some (Some (SysExit AttemptsExhausted), w2)
                else program_attempts rejects roles rec ssid rest attempts w2))))"

subsection \<open>\<^verbatim>\<open>finish_up_device\<close>\<close>

text \<open>
  Called with the record at position \<open>i\<close> of the queue, the address \<open>device\<close>, the
  status \<open>new_status\<close> read just before and the settings document found on the new
  network (a JSON object, so the \<^verbatim>\<open>if not configured_settings\<close> re-read is not taken).
  \<^verbatim>\<open>initial_status[ 'mac' ]\<close> raises \<^verbatim>\<open>TypeError\<close> when the status read gave
  \<^verbatim>\<open>None\<close>, after four keys of the record have been written. The label and toggle
  steps at the end (\<^verbatim>\<open>--print-using\<close>, \<^verbatim>\<open>--toggle\<close>) are taken to be switched off.
\<close>

definition status_of :: "dev_status option \<Rightarrow> status_value" where
  "status_of s = (case s of None \<Rightarrow> Null | Some d \<Rightarrow> Status d)"

definition finish_up_device ::
  "args \<Rightarrow> string option \<Rightarrow> nat \<Rightarrow> string \<Rightarrow> episode \<Rightarrow> string \<Rightarrow> world \<Rightarrow>
     (failure option \<times> world) option"
where
  "finish_up_device a new_version i device ep configured_settings w =
     (let rec1 = (device_queue w ! i)
                   \<lparr>ConfirmedTime := Some (t_confirmed ep),
                    status_key := Some (status_of (new_status ep)),
                    settings_key := Some configured_settings,
                    Origin := Some ''provision-list''\<rparr>;
          w1 = w\<lparr>device_queue := (device_queue w)[i := rec1]\<rparr>
      in
      case new_status ep of
        None \<Rightarrow> Some (Some (Raised TypeError), w1)
      | Some st \<Rightarrow>
          (let rec2 = rec1\<lparr>ID := Some (mac st), IP := Some (wifi_sta_ip st)\<rparr>;
               db2 = (device_db w)(mac st \<mapsto> rec2);
               w2 = w\<lparr>device_queue := (device_queue w)[i := rec2],
                      device_db := db2, db_file := db2\<rparr>
           in
           if ota a = [] then Some (None, w2)
           else
             (case flash_device device (ota a) (ota_timeout a) new_version (dry_run a)
                     (ota_run ep) of
                None \<Rightarrow> None
              | Some (Inl e, urls) \<Rightarrow> Some (Some e, w2)
              | Some (Inr x, urls) \<Rightarrow>
                  if returns x then
                    (let rec3 = rec2\<lparr>status_key :=
                                   Some (case ota_status ep of
                                           None \<Rightarrow> EmptyDict | Some d \<Rightarrow> Status d)\<rparr>;
                         db3 = db2(mac st \<mapsto> rec3)
                     in Some (None, w2\<lparr>device_queue := (device_queue w)[i := rec3],
                                        device_db := db3, db_file := db3\<rparr>))
                  else Some (None, w2))))"

subsection \<open>One instruction\<close>

text \<open>
  The body of the loop \<^verbatim>\<open>for rec in device_queue\<close> for a record that is not skipped,
  \<open>i\<close> being its position: discovery, the claim of the factory device with the first
  write of the queue file, the programming attempts, the return of a single control device
  to AP mode, \<^verbatim>\<open>CompletedTime\<close>, the search for the device on the new network, the
  second write of the queue file, and \<^verbatim>\<open>finish_up_device\<close>. \<^verbatim>\<open>--cue\<close> and
  \<^verbatim>\<open>--timing\<close> only prompt and print.
\<close>

definition provision_one ::
  "(string \<Rightarrow> bool) \<Rightarrow> args \<Rightarrow> string option \<Rightarrow> nat \<times> nat \<Rightarrow> nat \<Rightarrow> episode \<Rightarrow> world \<Rightarrow>
     (failure option \<times> world) option"
where
  "provision_one rejects a new_version roles i ep w0 =
     (let w = w0\<lparr>setup_count := setup_count w0 + 1\<rparr> in
      case discover (discoveries ep) of
        None \<Rightarrow> None
      | Some ssid \<Rightarrow>
          (let rec1 = (device_queue w ! i)
                        \<lparr>factory_ssid := Some ssid,
                         InProgressTime := Some (t_in_progress ep)\<rparr>;
               q1 = (device_queue w)[i := rec1];
               w1 = w\<lparr>device_queue := q1, queue_file := q1\<rparr>
           in
           case program_attempts rejects roles rec1 ssid (attempts ep) 0 w1 of
             None \<Rightarrow> None
           | Some (Some e, w2) \<Rightarrow> Some (Some e, w2)
           | Some (None, w2) \<Rightarrow>
               (case (if two_devices roles w2 then (None, w2)
                      else set_ap_for rejects (fst roles) rec1 w2) of
                  (Some e, w3) \<Rightarrow> Some (Some e, w3)
                | (None, w3) \<Rightarrow>
                    (let ip_address = (case StaticIP rec1 of Some ip \<Rightarrow> ip | None \<Rightarrow> ssid);
                         rec2 = rec1\<lparr>CompletedTime := Some (t_completed ep)\<rparr>;
                         w4 = w3\<lparr>device_queue := (device_queue w3)[i := rec2]\<rparr>
                     in
                     case located ep of
                       NoAnswer \<Rightarrow> Some (Some (Raised JSONDecodeError), w4)
                     | EmptyString \<Rightarrow> Some (Some (SysExit DeviceNotFound), w4)
                     | Settings configured_settings \<Rightarrow>
                         finish_up_device a new_version i ip_address ep configured_settings
                           (w4\<lparr>success_count := success_count w4 + 1,
                               queue_file := device_queue w4\<rparr>)))))"

subsection \<open>\<^verbatim>\<open>provision_list\<close>\<close>

text \<open>
  \<^verbatim>\<open>'CompletedTime' in rec or args.group and ( not 'Group' in rec or rec[ 'Group' ] != args.group )\<close>,
  then \<^verbatim>\<open>'SSID' not in rec\<close>: the two \<^verbatim>\<open>continue\<close> of the loop.
\<close>

definition skipped :: "args \<Rightarrow> instruction \<Rightarrow> bool" where
  "skipped a rec =
     ((CompletedTime rec \<noteq> None \<or>
       (\<not> no_group (group a) \<and> (Group rec = None \<or> Group rec \<noteq> group a)))
      \<or> SSID rec = None)"

text \<open>
  The loop over the queue, as a recursion over the positions still to visit. Each
  instruction that is not skipped uses up one episode of the environment. A failure ends
  the loop with the state at that point; \<open>None\<close> says that the environment was used up
  before the run ended.
\<close>

fun provision_loop ::
  "(string \<Rightarrow> bool) \<Rightarrow> args \<Rightarrow> string option \<Rightarrow> nat \<times> nat \<Rightarrow> nat list \<Rightarrow> episode list \<Rightarrow> world \<Rightarrow>
     (failure option \<times> world) option"
where
  "provision_loop rejects a new_version roles [] eps w = Some (None, w)"
| "provision_loop rejects a new_version roles (i # is) eps w =
     (if skipped a (device_queue w ! i) then provision_loop rejects a new_version roles is eps w
      else
        (case eps of
           [] \<Rightarrow> None
         | ep # eps' \<Rightarrow>
             (case provision_one rejects a new_version roles i ep w of
                None \<Rightarrow> None
              | Some (Some e, w') \<Rightarrow> Some (Some e, w')
              | Some (None, w') \<Rightarrow> provision_loop rejects a new_version roles is eps' w')))"

text \<open>
  \<^verbatim>\<open>provision_list( args, new_version )\<close>: the queue check, the role assignment over the
  connections of the run, then the loop.
\<close>

definition provision_list ::
  "(string \<Rightarrow> bool) \<Rightarrow> args \<Rightarrow> string option \<Rightarrow> episode list \<Rightarrow> world \<Rightarrow>
     (failure option \<times> world) option"
where
  "provision_list rejects a new_version eps w =
     (case check_for_device_queue (device_queue w) (group a) of
        Some e \<Rightarrow> Some (Some e, w)
      | None \<Rightarrow>
          (case ddwrt_choose_roles (nodes w) of
             Inl e \<Rightarrow> Some (Some e, w)
           | Inr roles \<Rightarrow>
               provision_loop rejects a new_version roles [0..<length (device_queue w)] eps
                 (w\<lparr>setup_count := 0, success_count := 0\<rparr>)))"

subsection \<open>Capabilities and example devices\<close>

text \<open>
  A device is capable of a role when the role's profile was learned: AP-only, STA-only or
  both.
\<close>

definition ap_only :: "node \<Rightarrow> bool" where
  "ap_only cn = (has_profile ''ap'' cn \<and> \<not> has_profile ''sta'' cn)"

definition sta_only :: "node \<Rightarrow> bool" where
  "sta_only cn = (has_profile ''sta'' cn \<and> \<not> has_profile ''ap'' cn)"

definition dual :: "node \<Rightarrow> bool" where
  "dual cn = (has_profile ''ap'' cn \<and> has_profile ''sta'' cn)"

text \<open>
  Learned profiles as \<^verbatim>\<open>ddwrt_learn\<close> stores them, and three connections used to run
  the functions on concrete input: \<open>node_A\<close> learned in AP mode only, \<open>node_S\<close> in
  client mode only, \<open>node_D\<close> in both.
\<close>

definition learned_ap :: "(string \<times> string) list" where
  "learned_ap =
     [(''sta_ifname'', []), (''wan_hwaddr'', ''00:11:22:33:44:56''), (''wl0_mode'', ''ap''),
      (''wl0_hw_txchain'', ''3''), (''wl0_hw_rxchain'', ''3'')]"

definition learned_sta :: "(string \<times> string) list" where
  "learned_sta =
     [(''sta_ifname'', ''eth1''), (''wan_hwaddr'', ''00:11:22:33:44:56''), (''wl0_mode'', ''sta''),
      (''wl0_hw_txchain'', ''3''), (''wl0_hw_rxchain'', ''3'')]"

definition node_A :: node where
  "node_A = \<lparr>router = \<lparr>name = ''a'', address = ''192.168.1.1'', password = ''pw'',
                         et0macaddr = ''AA'', profiles = [(''ap'', learned_ap)]\<rparr>,
             current_mode = ''sta''\<rparr>"

definition node_S :: node where
  "node_S = \<lparr>router = \<lparr>name = ''s'', address = ''192.168.1.2'', password = ''pw'',
                         et0macaddr = ''BB'', profiles = [(''sta'', learned_sta)]\<rparr>,
             current_mode = ''ap''\<rparr>"

definition node_D :: node where
  "node_D = \<lparr>router = \<lparr>name = ''d'', address = ''192.168.1.3'', password = ''pw'',
                         et0macaddr = ''DD'',
                         profiles = [(''ap'', learned_ap), (''sta'', learned_sta)]\<rparr>,
             current_mode = ''ap''\<rparr>"

subsection \<open>Commands of the programming sequence\<close>

text \<open>
  A command that writes or deletes an nvram key; and a control device that answers every
  command without an error, for running the functions on concrete input.
\<close>

definition nvram_write :: "string \<Rightarrow> bool" where
  "nvram_write c = (take 10 c = ''nvram set '' \<or> take 12 c = ''nvram unset '')"

definition accepts_all :: "string \<Rightarrow> bool" where
  "accepts_all c = False"

subsection \<open>Example instructions and runs\<close>

text \<open>
  An imported instruction as \<^verbatim>\<open>append_list\<close> stores it, a state holding a queue as
  loaded from its file with an empty device database, and the default options.
\<close>

definition instr :: "string \<Rightarrow> rat \<Rightarrow> instruction" where
  "instr ssid t =
     \<lparr>SSID = Some ssid, Password = Some ''abc12cd34'', StaticIP = None, NetMask = None,
      Gateway = None, Group = None, other = [], InsertTime = Some t, factory_ssid = None,
      InProgressTime = None, CompletedTime = None, ConfirmedTime = None, status_key = None,
      settings_key = None, Origin = None, ID = None, IP = None\<rparr>"

definition world_of :: "instruction list \<Rightarrow> node list \<Rightarrow> world" where
  "world_of q ns =
     \<lparr>device_queue = q, device_db = Map.empty, queue_file = q, db_file = Map.empty,
      nodes = ns, sent = [], setup_count = 0, success_count = 0\<rparr>"

definition default_args :: args where
  "default_args = \<lparr>group = None, ota = [], ota_timeout = 300, dry_run = False\<rparr>"

subsection \<open>Stores and example episodes\<close>

text \<open>
  Two states with the same stores and counters: they differ at most in the connections
  and in what was sent to them.
\<close>

definition same_stores :: "world \<Rightarrow> world \<Rightarrow> bool" where
  "same_stores w w' =
     (device_queue w' = device_queue w \<and> device_db w' = device_db w \<and>
      queue_file w' = queue_file w \<and> db_file w' = db_file w \<and>
      setup_count w' = setup_count w \<and> success_count w' = success_count w)"

text \<open>
  Two episodes: in \<open>ep_stuck\<close> the factory device is found at the second survey and
  then stays visible through sixty surveys in each of ten programming attempts; in
  \<open>ep_good\<close> the device drops from the survey, is found on the new network and answers
  its status.
\<close>

definition no_ota :: ota_env where
  "no_ota = \<lparr>check_reply = None, flash_answered = False, start_time = 0, polls = []\<rparr>"

definition ep_stuck :: episode where
  "ep_stuck =
     \<lparr>discoveries = [[], [''shelly1-0001'']], t_in_progress = 200,
      attempts = replicate 10 \<lparr>status_answered = True, scans = replicate 60 [''shelly1-0001'']\<rparr>,
      t_completed = 900, located = NoAnswer, new_status = None, t_confirmed = 901,
      ota_run = no_ota, ota_status = None\<rparr>"

definition ep_good :: episode where
  "ep_good =
     \<lparr>discoveries = [[''shelly1-0002'']], t_in_progress = 1000,
      attempts = [\<lparr>status_answered = True,
                   scans = [[''shelly1-0002''], [''shelly1-0002''], [], [], []]\<rparr>],
      t_completed = 1010, located = Settings ''{device: {type: SHSW-1}}'',
      new_status = Some \<lparr>mac = ''ECFABC746290'', wifi_sta_ip = ''192.168.1.77''\<rparr>,
      t_confirmed = 1011, ota_run = no_ota, ota_status = None\<rparr>"

subsection \<open>Lifecycle timestamps\<close>

text \<open>
  \<open>le_opt a b\<close>: when both times are there, \<open>a\<close> is not later than \<open>b\<close>.
  \<open>follows a b\<close>: when \<open>b\<close> is there, so is \<open>a\<close>, and \<open>a\<close> is not later.
  A record's timestamps are in order (\<open>ts_ok\<close>) when \<^verbatim>\<open>InProgressTime\<close> is not before
  \<^verbatim>\<open>InsertTime\<close>, \<^verbatim>\<open>CompletedTime\<close> is there only with an earlier
  \<^verbatim>\<open>InProgressTime\<close>, and \<^verbatim>\<open>ConfirmedTime\<close> only with an earlier
  \<^verbatim>\<open>CompletedTime\<close>. A record is \<open>complete\<close> when it carries all three.
  The clock of an episode is in order (\<open>clock_ok\<close>) when its three readings do not
  decrease and none of them is before an \<^verbatim>\<open>InsertTime\<close> of the queue.
\<close>

definition le_opt :: "rat option \<Rightarrow> rat option \<Rightarrow> bool" where
  "le_opt a b = (case a of None \<Rightarrow> True | Some x \<Rightarrow> (case b of None \<Rightarrow> True | Some y \<Rightarrow> x \<le> y))"

definition follows :: "rat option \<Rightarrow> rat option \<Rightarrow> bool" where
  "follows a b = (case b of None \<Rightarrow> True | Some y \<Rightarrow> (case a of None \<Rightarrow> False | Some x \<Rightarrow> x \<le> y))"

definition ts_ok :: "instruction \<Rightarrow> bool" where
  "ts_ok rec =
     (le_opt (InsertTime rec) (InProgressTime rec) \<and>
      follows (InProgressTime rec) (CompletedTime rec) \<and>
      follows (CompletedTime rec) (ConfirmedTime rec))"

definition complete :: "instruction \<Rightarrow> bool" where
  "complete rec =
     (InProgressTime rec \<noteq> None \<and> CompletedTime rec \<noteq> None \<and> ConfirmedTime rec \<noteq> None)"

definition clock_ok :: "instruction list \<Rightarrow> episode \<Rightarrow> bool" where
  "clock_ok q ep =
     (t_in_progress ep \<le> t_completed ep \<and> t_completed ep \<le> t_confirmed ep \<and>
      list_all (\<lambda>rec. le_opt (InsertTime rec) (Some (t_in_progress ep))) q)"

section \<open>Role assignment\<close>

lemma capable_pair:
  "capable m [a, b] =
     (if has_profile m a then [0] else []) @ (if has_profile m b then [1] else [])"
  by (simp add: capable_def upt_rec [of 0] upt_rec [of 1])

lemma in_mode_pair:
  "in_mode m [a, b] =
     (if current_mode a = m then [0] else []) @ (if current_mode b = m then [1] else [])"
  by (simp add: in_mode_def upt_rec [of 0] upt_rec [of 1])

lemma capable_single:
  "capable m [a] = (if has_profile m a then [0] else [])"
  by (simp add: capable_def)

lemma first_simps [simp]: "first [] = Inl (Raised IndexError)" "first (x # xs) = Inr x"
  by (simp_all add: first_def)

lemma example_capabilities:
  "ap_only node_A" "sta_only node_S" "dual node_D"
  by (simp_all add: ap_only_def sta_only_def dual_def has_profile_def
        node_A_def node_S_def node_D_def)

text \<open>
  C5. With one AP-only and one STA-only control device, in either order of the arguments
  and whatever mode each device is in, the AP slot gets the AP-only device and the STA slot
  the STA-only device; with a single device capable of both roles, both slots get that one
  connection (the same position of \<open>nodes\<close>).
\<close>

theorem role_assignment:
  "(ap_only a \<and> sta_only s \<longrightarrow>
      ddwrt_choose_roles [a, s] = Inr (0, 1) \<and> [a, s] ! 0 = a \<and> [a, s] ! 1 = s \<and>
      ddwrt_choose_roles [s, a] = Inr (1, 0) \<and> [s, a] ! 1 = a \<and> [s, a] ! 0 = s)
   \<and> (dual d \<longrightarrow> ddwrt_choose_roles [d] = Inr (0, 0))"
  by (simp add: ddwrt_choose_roles_def capable_pair capable_single
        ap_only_def sta_only_def dual_def)

theorem role_assignment_witness:
  "ap_only node_A \<and> sta_only node_S \<and> dual node_D \<and>
   ddwrt_choose_roles [node_A, node_S] = Inr (0, 1) \<and>
   ddwrt_choose_roles [node_S, node_A] = Inr (1, 0) \<and>
   ddwrt_choose_roles [node_D] = Inr (0, 0)"
  using role_assignment [of node_A node_S node_D] example_capabilities by simp

text \<open>
  C10. Two control devices that are both capable of both roles, neither of them in AP mode
  when connected: the third branch reads \<^verbatim>\<open>current_ap[0]\<close> of an empty list, and the call
  ends with an \<^verbatim>\<open>IndexError\<close> instead of an assignment or an exit with a message.
\<close>

theorem both_dual_none_in_ap:
  "dual a \<Longrightarrow> dual b \<Longrightarrow> current_mode a \<noteq> ''ap'' \<Longrightarrow> current_mode b \<noteq> ''ap'' \<Longrightarrow>
     ddwrt_choose_roles [a, b] = Inl (Raised IndexError)"
  by (simp add: ddwrt_choose_roles_def capable_pair in_mode_pair dual_def)

theorem both_dual_none_in_ap_witness:
  "dual (node_D\<lparr>current_mode := ''sta''\<rparr>) \<and> dual (node_D\<lparr>current_mode := ''wet''\<rparr>) \<and>
   ddwrt_choose_roles [node_D\<lparr>current_mode := ''sta''\<rparr>, node_D\<lparr>current_mode := ''wet''\<rparr>]
     = Inl (Raised IndexError)"
  using both_dual_none_in_ap
          [of "node_D\<lparr>current_mode := ''sta''\<rparr>" "node_D\<lparr>current_mode := ''wet''\<rparr>"]
  by (simp add: dual_def has_profile_def node_D_def)

section \<open>Convergence detection\<close>







section \<open>Firmware update\<close>

lemma never_updating:
  "\<forall>(t, r) \<in> set (take (11 - passes) ps). t < deadline \<and> (\<exists>d. r = Some d \<and> status d \<noteq> ''updating'') \<Longrightarrow>
   11 - passes \<le> length ps \<Longrightarrow> passes \<le> 10 \<Longrightarrow>
   ota_poll deadline nv result url False passes urls ps
     = Some (Inr NeverUpdating, urls @ replicate (11 - passes) url)"
proof (induction ps arbitrary: passes urls)
  case Nil
  then show ?case by simp
next
  case (Cons q qs)
  obtain t r where q: "q = (t, r)" by (cases q)
  from Cons.prems obtain d' where d': "11 - passes = Suc d'" by (cases "11 - passes") auto
  with Cons.prems(1) q obtain d where d: "t < deadline" "r = Some d" "status d \<noteq> ''updating''"
    by auto
  show ?case
  proof (cases "passes = 10")
    case True
    with q d show ?thesis by simp
  next
    case False
    from d' have e: "11 - (passes + 1) = d'" "10 - passes = d'" by arith+
    from Cons.prems(2) d' have 1: "11 - (passes + 1) \<le> length qs"
      by (simp add: e)
    from False Cons.prems(3) have l1b: "passes + 1 \<le> 10" by simp
    from Cons.prems(1) d' have 2: "\<forall>(t, r) \<in> set (take (11 - (passes + 1)) qs). t < deadline \<and> (\<exists>d. r = Some d \<and> status d \<noteq> ''updating'')"
      by (simp add: e)
    from False Cons.prems have 3: "11 - passes = Suc (11 - (passes + 1))" by simp
    from Cons.IH [OF 2 1 l1b, of "urls @ [url]"] q d False Cons.prems(3) show ?thesis
      by (simp add: 3 replicate_append_same del: replicate_Suc flip: replicate_Suc)
  qed
qed


lemma idle_polls_pass:
  "k \<le> length ps \<Longrightarrow> passes + k \<le> 10 \<Longrightarrow>
   \<forall>(t, q) \<in> set (take k ps). t < deadline \<and> (\<exists>d. q = Some d \<and> status d \<noteq> ''updating'') \<Longrightarrow>
   ota_poll deadline nv result url False passes urls ps
     = ota_poll deadline nv result url False (passes + k) (urls @ replicate k url) (drop k ps)"
proof (induction k arbitrary: passes urls ps)
  case 0
  then show ?case by simp
next
  case (Suc k)
  from Suc.prems(1) obtain p qs where ps: "ps = p # qs" by (cases ps) auto
  obtain t q where p: "p = (t, q)" by (cases p)
  from Suc.prems(3) ps p obtain d where d: "t < deadline" "q = Some d" "status d \<noteq> ''updating''"
    by auto
  from Suc.prems ps have a: "k \<le> length qs" "(passes + 1) + k \<le> 10"
    and b: "\<forall>(t, q) \<in> set (take k qs). t < deadline \<and> (\<exists>d. q = Some d \<and> status d \<noteq> ''updating'')"
    by auto
  from Suc.prems(2) have lt: "\<not> passes + 1 > 10" by simp
  have "ota_poll deadline nv result url False passes urls ps
          = ota_poll deadline nv result url False (passes + 1) (urls @ [url]) qs"
    using ps p d lt by simp
  also have "\<dots> = ota_poll deadline nv result url False ((passes + 1) + k)
                      ((urls @ [url]) @ replicate k url) (drop k qs)"
    by (rule Suc.IH [OF a b])
  finally show ?case
    using ps by (simp add: replicate_append_same)
qed


lemma ota_urls_differ: "ota_url addr fw \<noteq> ota_check_url addr"
  by (simp add: ota_url_def ota_check_url_def)

text \<open>
  C4, as the code has it. \<^verbatim>\<open>flash_device\<close> first reads the device's status and
  version. When the version is the requested one it returns success (\<open>UpToDate\<close>, the
  skip), whatever the status reads; otherwise, when the status reads "updating", it returns
  failure (\<open>AlreadyUpdating\<close>, the abort). In both cases the only request sent is the
  read of \<^verbatim>\<open>/ota\<close>: the update URL is not requested.
\<close>

theorem ota_precheck:
  "check_reply env = Some r \<Longrightarrow>
     (if Some (old_version r) = nv
        then flash_device addr fw timeout nv dry env = Some (Inr UpToDate, [ota_check_url addr])
      else if status r = ''updating''
        then flash_device addr fw timeout nv dry env
               = Some (Inr AlreadyUpdating, [ota_check_url addr])
      else True)
     \<and> returns UpToDate \<and> \<not> returns AlreadyUpdating
     \<and> ota_url addr fw \<notin> set [ota_check_url addr]"
  by (simp add: flash_device_def Let_def ota_urls_differ)

theorem ota_precheck_witness:
  "flash_device ''192.168.1.50'' ''http://fw.example/SHSW-1.zip'' 300 (Some ''v2'') False
     \<lparr>check_reply = Some \<lparr>status = ''idle'', old_version = ''v2''\<rparr>, flash_answered = True,
      start_time = 0, polls = []\<rparr>
     = Some (Inr UpToDate, [ota_check_url ''192.168.1.50''])
   \<and> flash_device ''192.168.1.50'' ''http://fw.example/SHSW-1.zip'' 300 (Some ''v2'') False
     \<lparr>check_reply = Some \<lparr>status = ''updating'', old_version = ''v1''\<rparr>, flash_answered = True,
      start_time = 0, polls = []\<rparr>
     = Some (Inr AlreadyUpdating, [ota_check_url ''192.168.1.50''])"
  using ota_precheck
          [of "\<lparr>check_reply = Some \<lparr>status = ''idle'', old_version = ''v2''\<rparr>,
                flash_answered = True, start_time = 0, polls = []\<rparr>"
              "\<lparr>status = ''idle'', old_version = ''v2''\<rparr>" "Some ''v2''"
              "''192.168.1.50''" "''http://fw.example/SHSW-1.zip''" 300 False]
        ota_precheck
          [of "\<lparr>check_reply = Some \<lparr>status = ''updating'', old_version = ''v1''\<rparr>,
                flash_answered = True, start_time = 0, polls = []\<rparr>"
              "\<lparr>status = ''updating'', old_version = ''v1''\<rparr>" "Some ''v2''"
              "''192.168.1.50''" "''http://fw.example/SHSW-1.zip''" 300 False]
  by simp

text \<open>
  The claim as written, that a device whose status reads "updating" is refused, fails where
  the device also reports the requested version: the version test comes first and the call
  returns success.
\<close>

theorem ota_precheck_counterexample:
  "flash_device ''192.168.1.50'' ''http://fw.example/SHSW-1.zip'' 300 (Some ''v2'') False
     \<lparr>check_reply = Some \<lparr>status = ''updating'', old_version = ''v2''\<rparr>, flash_answered = True,
      start_time = 0, polls = []\<rparr>
     = Some (Inr UpToDate, [ota_check_url ''192.168.1.50''])
   \<and> returns UpToDate"
  by (simp add: flash_device_def Let_def)

text \<open>
  C3, as the code has it. With no expected build (\<^verbatim>\<open>LATEST\<close>), a device read as
  (idle, v1) and then polled as (updating, v1), (updating, v1), (idle, v2) gives success
  (\<open>Updated\<close>) at the third poll. With an expected build other than the device's,
  (idle, v1) followed by the polls (updating, v1), (idle, v1) gives the failure after the
  loop (\<open>VersionUnchanged\<close>). The test for a device that never shows "updating" is
  \<^verbatim>\<open>passes > 10\<close>: ten polls answered in time without "updating" are let through, the
  call going on with the eleventh poll as the loop does after ten passes, and an eleventh
  such poll ends the call with \<open>NeverUpdating\<close> after exactly eleven poll requests.
  "idle" stands for any status other than "updating"; the result lists every URL requested.
\<close>

theorem ota_poll_classification:
  "(timeout \<noteq> 0 \<and> s \<noteq> ''updating'' \<and>
    t1 < t0 + of_int timeout \<and> t2 < t0 + of_int timeout \<and> t3 < t0 + of_int timeout \<longrightarrow>
      flash_device addr fw timeout None False
        \<lparr>check_reply = Some \<lparr>status = s, old_version = v1\<rparr>, flash_answered = True,
         start_time = t0,
         polls = [(t1, Some \<lparr>status = ''updating'', old_version = v1\<rparr>),
                  (t2, Some \<lparr>status = ''updating'', old_version = v1\<rparr>),
                  (t3, Some \<lparr>status = s, old_version = v2\<rparr>)]\<rparr>
        = Some (Inr Updated,
                [ota_check_url addr, ota_url addr fw] @ replicate 3 (ota_check_url addr)))
   \<and> (timeout \<noteq> 0 \<and> s \<noteq> ''updating'' \<and> v \<noteq> [] \<and> v \<noteq> v1 \<and>
    t1 < t0 + of_int timeout \<and> t2 < t0 + of_int timeout \<longrightarrow>
      flash_device addr fw timeout (Some v) False
        \<lparr>check_reply = Some \<lparr>status = s, old_version = v1\<rparr>, flash_answered = True,
         start_time = t0,
         polls = [(t1, Some \<lparr>status = ''updating'', old_version = v1\<rparr>),
                  (t2, Some \<lparr>status = s, old_version = v1\<rparr>)]\<rparr>
        = Some (Inr VersionUnchanged,
                [ota_check_url addr, ota_url addr fw] @ replicate 2 (ota_check_url addr)))
   \<and> (timeout \<noteq> 0 \<and> check_reply env = Some r \<and> Some (old_version r) \<noteq> nv \<and>
      status r \<noteq> ''updating'' \<and> flash_answered env \<and> 10 \<le> length (polls env) \<and>
      (\<forall>(t, q) \<in> set (take 10 (polls env)).
          t < start_time env + of_int timeout \<and> (\<exists>d. q = Some d \<and> status d \<noteq> ''updating'')) \<longrightarrow>
      flash_device addr fw timeout nv False env
        = ota_poll (start_time env + of_int timeout) nv r (ota_check_url addr) False 10
            ([ota_check_url addr, ota_url addr fw] @ replicate 10 (ota_check_url addr))
            (drop 10 (polls env)))
   \<and> (timeout \<noteq> 0 \<and> check_reply env = Some r \<and> Some (old_version r) \<noteq> nv \<and>
      status r \<noteq> ''updating'' \<and> flash_answered env \<and> 11 \<le> length (polls env) \<and>
      (\<forall>(t, q) \<in> set (take 11 (polls env)).
          t < start_time env + of_int timeout \<and> (\<exists>d. q = Some d \<and> status d \<noteq> ''updating'')) \<longrightarrow>
      flash_device addr fw timeout nv False env
        = Some (Inr NeverUpdating,
                [ota_check_url addr, ota_url addr fw] @ replicate 11 (ota_check_url addr)))
   \<and> returns Updated \<and> \<not> returns VersionUnchanged \<and> \<not> returns NeverUpdating"
proof -
  let ?d = "start_time env + of_int timeout"
  let ?u = "ota_check_url addr"
  have p1: "timeout \<noteq> 0 \<and> s \<noteq> ''updating'' \<and>
    t1 < t0 + of_int timeout \<and> t2 < t0 + of_int timeout \<and> t3 < t0 + of_int timeout \<longrightarrow>
      flash_device addr fw timeout None False
        \<lparr>check_reply = Some \<lparr>status = s, old_version = v1\<rparr>, flash_answered = True,
         start_time = t0,
         polls = [(t1, Some \<lparr>status = ''updating'', old_version = v1\<rparr>),
                  (t2, Some \<lparr>status = ''updating'', old_version = v1\<rparr>),
                  (t3, Some \<lparr>status = s, old_version = v2\<rparr>)]\<rparr>
        = Some (Inr Updated, [?u, ota_url addr fw] @ replicate 3 ?u)"
    by (simp add: flash_device_def Let_def no_version_def numeral_3_eq_3)
  have p2: "timeout \<noteq> 0 \<and> s \<noteq> ''updating'' \<and> v \<noteq> [] \<and> v \<noteq> v1 \<and>
    t1 < t0 + of_int timeout \<and> t2 < t0 + of_int timeout \<longrightarrow>
      flash_device addr fw timeout (Some v) False
        \<lparr>check_reply = Some \<lparr>status = s, old_version = v1\<rparr>, flash_answered = True,
         start_time = t0,
         polls = [(t1, Some \<lparr>status = ''updating'', old_version = v1\<rparr>),
                  (t2, Some \<lparr>status = s, old_version = v1\<rparr>)]\<rparr>
        = Some (Inr VersionUnchanged, [?u, ota_url addr fw] @ replicate 2 ?u)"
    by (auto simp add: flash_device_def Let_def no_version_def numeral_2_eq_2)
  have p3: "timeout \<noteq> 0 \<and> check_reply env = Some r \<and> Some (old_version r) \<noteq> nv \<and>
      status r \<noteq> ''updating'' \<and> flash_answered env \<and> 10 \<le> length (polls env) \<and>
      (\<forall>(t, q) \<in> set (take 10 (polls env)).
          t < ?d \<and> (\<exists>d. q = Some d \<and> status d \<noteq> ''updating'')) \<longrightarrow>
      flash_device addr fw timeout nv False env
        = ota_poll ?d nv r ?u False 10 ([?u, ota_url addr fw] @ replicate 10 ?u)
            (drop 10 (polls env))"
  proof (rule impI)
    assume h: "timeout \<noteq> 0 \<and> check_reply env = Some r \<and> Some (old_version r) \<noteq> nv \<and>
      status r \<noteq> ''updating'' \<and> flash_answered env \<and> 10 \<le> length (polls env) \<and>
      (\<forall>(t, q) \<in> set (take 10 (polls env)).
          t < ?d \<and> (\<exists>d. q = Some d \<and> status d \<noteq> ''updating''))"
    then have a: "10 \<le> length (polls env)" and b: "0 + 10 \<le> (10::nat)"
      and c: "\<forall>(t, q) \<in> set (take 10 (polls env)).
          t < ?d \<and> (\<exists>d. q = Some d \<and> status d \<noteq> ''updating'')"
      by simp_all
    have "ota_poll ?d nv r ?u False 0 [?u, ota_url addr fw] (polls env)
            = ota_poll ?d nv r ?u False (0 + 10) ([?u, ota_url addr fw] @ replicate 10 ?u)
                (drop 10 (polls env))"
      by (rule idle_polls_pass [OF a b c])
    with h show "flash_device addr fw timeout nv False env
        = ota_poll ?d nv r ?u False 10 ([?u, ota_url addr fw] @ replicate 10 ?u)
            (drop 10 (polls env))"
      by (simp add: flash_device_def Let_def)
  qed
  have p4: "timeout \<noteq> 0 \<and> check_reply env = Some r \<and> Some (old_version r) \<noteq> nv \<and>
      status r \<noteq> ''updating'' \<and> flash_answered env \<and> 11 \<le> length (polls env) \<and>
      (\<forall>(t, q) \<in> set (take 11 (polls env)).
          t < ?d \<and> (\<exists>d. q = Some d \<and> status d \<noteq> ''updating'')) \<longrightarrow>
      flash_device addr fw timeout nv False env
        = Some (Inr NeverUpdating, [?u, ota_url addr fw] @ replicate 11 ?u)"
  proof (rule impI)
    assume h: "timeout \<noteq> 0 \<and> check_reply env = Some r \<and> Some (old_version r) \<noteq> nv \<and>
      status r \<noteq> ''updating'' \<and> flash_answered env \<and> 11 \<le> length (polls env) \<and>
      (\<forall>(t, q) \<in> set (take 11 (polls env)).
          t < ?d \<and> (\<exists>d. q = Some d \<and> status d \<noteq> ''updating''))"
    then have "ota_poll ?d nv r ?u False 0 [?u, ota_url addr fw] (polls env)
         = Some (Inr NeverUpdating, [?u, ota_url addr fw] @ replicate (11 - 0) ?u)"
      by (intro never_updating) auto
    with h show "flash_device addr fw timeout nv False env
        = Some (Inr NeverUpdating, [?u, ota_url addr fw] @ replicate 11 ?u)"
      by (simp add: flash_device_def Let_def)
  qed
  have p5: "returns Updated \<and> \<not> returns VersionUnchanged \<and> \<not> returns NeverUpdating"
    by simp
  show ?thesis
    by (rule conjI, rule p1, rule conjI, rule p2, rule conjI, rule p3, rule conjI, rule p4,
        rule p5)
qed

theorem ota_poll_classification_witness:
  "flash_device ''192.168.1.50'' ''LATEST'' 300 None False
     \<lparr>check_reply = Some \<lparr>status = ''idle'', old_version = ''v1''\<rparr>, flash_answered = True,
      start_time = 0,
      polls = [(3, Some \<lparr>status = ''updating'', old_version = ''v1''\<rparr>),
               (6, Some \<lparr>status = ''updating'', old_version = ''v1''\<rparr>),
               (9, Some \<lparr>status = ''idle'', old_version = ''v2''\<rparr>)]\<rparr>
     = Some (Inr Updated,
         [ota_check_url ''192.168.1.50'', ota_url ''192.168.1.50'' ''LATEST'']
           @ replicate 3 (ota_check_url ''192.168.1.50''))
   \<and> flash_device ''192.168.1.50'' ''http://fw.example/SHSW-1.zip'' 300 (Some ''v2'') False
     \<lparr>check_reply = Some \<lparr>status = ''idle'', old_version = ''v1''\<rparr>, flash_answered = True,
      start_time = 0,
      polls = [(3, Some \<lparr>status = ''updating'', old_version = ''v1''\<rparr>),
               (6, Some \<lparr>status = ''idle'', old_version = ''v1''\<rparr>)]\<rparr>
     = Some (Inr VersionUnchanged,
         [ota_check_url ''192.168.1.50'', ota_url ''192.168.1.50'' ''http://fw.example/SHSW-1.zip'']
           @ replicate 2 (ota_check_url ''192.168.1.50''))
   \<and> flash_device ''192.168.1.50'' ''http://fw.example/SHSW-1.zip'' 300 (Some ''v2'') False
     \<lparr>check_reply = Some \<lparr>status = ''idle'', old_version = ''v1''\<rparr>, flash_answered = True,
      start_time = 0,
      polls = replicate 11 (3, Some \<lparr>status = ''idle'', old_version = ''v1''\<rparr>)\<rparr>
     = Some (Inr NeverUpdating,
         [ota_check_url ''192.168.1.50'', ota_url ''192.168.1.50'' ''http://fw.example/SHSW-1.zip'']
           @ replicate 11 (ota_check_url ''192.168.1.50''))"
proof -
  note latest = ota_poll_classification
          [of 300 "''idle''" 3 0 6 9 "''192.168.1.50''" "''LATEST''" "''v1''" "''v2''" "''v2''"
              "\<lparr>check_reply = Some \<lparr>status = ''idle'', old_version = ''v1''\<rparr>,
                flash_answered = True, start_time = 0,
                polls = replicate 11 (3, Some \<lparr>status = ''idle'', old_version = ''v1''\<rparr>)\<rparr>"
              "\<lparr>status = ''idle'', old_version = ''v1''\<rparr>" "Some ''v2''"]
  note explicit = ota_poll_classification
          [of 300 "''idle''" 3 0 6 9 "''192.168.1.50''" "''http://fw.example/SHSW-1.zip''"
              "''v1''" "''v2''" "''v2''"
              "\<lparr>check_reply = Some \<lparr>status = ''idle'', old_version = ''v1''\<rparr>,
                flash_answered = True, start_time = 0,
                polls = replicate 11 (3, Some \<lparr>status = ''idle'', old_version = ''v1''\<rparr>)\<rparr>"
              "\<lparr>status = ''idle'', old_version = ''v1''\<rparr>" "Some ''v2''"]
  show ?thesis
  proof (intro conjI)
    show "flash_device ''192.168.1.50'' ''LATEST'' 300 None False
       \<lparr>check_reply = Some \<lparr>status = ''idle'', old_version = ''v1''\<rparr>, flash_answered = True,
        start_time = 0,
        polls = [(3, Some \<lparr>status = ''updating'', old_version = ''v1''\<rparr>),
                 (6, Some \<lparr>status = ''updating'', old_version = ''v1''\<rparr>),
                 (9, Some \<lparr>status = ''idle'', old_version = ''v2''\<rparr>)]\<rparr>
       = Some (Inr Updated,
           [ota_check_url ''192.168.1.50'', ota_url ''192.168.1.50'' ''LATEST'']
             @ replicate 3 (ota_check_url ''192.168.1.50''))"
      by (rule latest [THEN conjunct1, rule_format]) simp
    show "flash_device ''192.168.1.50'' ''http://fw.example/SHSW-1.zip'' 300 (Some ''v2'') False
       \<lparr>check_reply = Some \<lparr>status = ''idle'', old_version = ''v1''\<rparr>, flash_answered = True,
        start_time = 0,
        polls = [(3, Some \<lparr>status = ''updating'', old_version = ''v1''\<rparr>),
                 (6, Some \<lparr>status = ''idle'', old_version = ''v1''\<rparr>)]\<rparr>
       = Some (Inr VersionUnchanged,
           [ota_check_url ''192.168.1.50'', ota_url ''192.168.1.50'' ''http://fw.example/SHSW-1.zip'']
             @ replicate 2 (ota_check_url ''192.168.1.50''))"
      by (rule explicit [THEN conjunct2, THEN conjunct1, rule_format]) simp
    show "flash_device ''192.168.1.50'' ''http://fw.example/SHSW-1.zip'' 300 (Some ''v2'') False
       \<lparr>check_reply = Some \<lparr>status = ''idle'', old_version = ''v1''\<rparr>, flash_answered = True,
        start_time = 0,
        polls = replicate 11 (3, Some \<lparr>status = ''idle'', old_version = ''v1''\<rparr>)\<rparr>
       = Some (Inr NeverUpdating,
           [ota_check_url ''192.168.1.50'', ota_url ''192.168.1.50'' ''http://fw.example/SHSW-1.zip'']
             @ replicate 11 (ota_check_url ''192.168.1.50''))"
      by (rule explicit [THEN conjunct2, THEN conjunct2, THEN conjunct2, THEN conjunct1,
            rule_format]) simp
  qed
qed

text \<open>
  The claim as written, with ten checks as the bound, fails: a device that shows "idle" in
  the first ten polls, "updating" in the eleventh and the new version in the twelfth is
  reported as updated.
\<close>

theorem ota_ten_checks_counterexample:
  "map_option fst (flash_device ''192.168.1.50'' ''LATEST'' 300 None False
     \<lparr>check_reply = Some \<lparr>status = ''idle'', old_version = ''v1''\<rparr>, flash_answered = True,
      start_time = 0,
      polls = [(3, Some \<lparr>status = ''idle'', old_version = ''v1''\<rparr>),
               (6, Some \<lparr>status = ''idle'', old_version = ''v1''\<rparr>),
               (9, Some \<lparr>status = ''idle'', old_version = ''v1''\<rparr>),
               (12, Some \<lparr>status = ''idle'', old_version = ''v1''\<rparr>),
               (15, Some \<lparr>status = ''idle'', old_version = ''v1''\<rparr>),
               (18, Some \<lparr>status = ''idle'', old_version = ''v1''\<rparr>),
               (21, Some \<lparr>status = ''idle'', old_version = ''v1''\<rparr>),
               (24, Some \<lparr>status = ''idle'', old_version = ''v1''\<rparr>),
               (27, Some \<lparr>status = ''idle'', old_version = ''v1''\<rparr>),
               (30, Some \<lparr>status = ''idle'', old_version = ''v1''\<rparr>),
               (33, Some \<lparr>status = ''updating'', old_version = ''v1''\<rparr>),
               (36, Some \<lparr>status = ''idle'', old_version = ''v2''\<rparr>)]\<rparr>)
   = Some (Inr Updated) \<and> returns Updated"
  by (simp add: flash_device_def Let_def no_version_def)

section \<open>Programming a control device\<close>

lemma run_steps_sent:
  "run_steps rejects steps sn = (r, sn') \<Longrightarrow>
     \<exists>cs. sn' = sn @ map Telnet cs \<and> set cs \<subseteq> {c. Inr c \<in> set steps} \<and>
          (r = None \<longrightarrow> map Inr cs = steps)"
proof (induction rejects steps sn rule: run_steps.induct)
  case (1 rejects sn)
  then show ?case by simp
next
  case (2 rejects e steps sn)
  then show ?case by auto
next
  case (3 rejects c steps sn)
  show ?case
  proof (cases "rejects c")
    case True
    with 3 show ?thesis by (intro exI [of _ "[c]"]) auto
  next
    case False
    with 3 obtain cs where "sn' = (sn @ [Telnet c]) @ map Telnet cs"
      "set cs \<subseteq> {c. Inr c \<in> set steps}" "r = None \<longrightarrow> map Inr cs = steps"
      by auto
    then show ?thesis by (intro exI [of _ "c # cs"]) auto
  qed
qed


lemma nvram_write_simps [simp]:
  "nvram_write (nvram_set k v)" "nvram_write (nvram_unset k)"
  "\<not> nvram_write radio_cycle" "\<not> nvram_write nvram_commit" "\<not> nvram_write restart_services"
  by (simp_all add: nvram_write_def nvram_set_def nvram_unset_def radio_cycle_def
        nvram_commit_def restart_services_def)

lemma from_db_step_write: "from_db_step cn mode k = Inr c \<Longrightarrow> nvram_write c"
  by (auto simp: from_db_step_def split: option.splits)

lemma from_db_step_write': "Inr c = from_db_step cn mode k \<Longrightarrow> nvram_write c"
  by (auto simp: from_db_step_def split: option.splits)

lemma commit_not_radio [simp]:
  "nvram_commit \<noteq> radio_cycle" "restart_services \<noteq> radio_cycle"
  "radio_cycle \<noteq> nvram_commit" "radio_cycle \<noteq> restart_services"
  "radio_cycle \<noteq> nvram_unset k" "radio_cycle \<noteq> nvram_set k v"
  by (simp_all add: nvram_commit_def restart_services_def radio_cycle_def
        nvram_unset_def nvram_set_def)

lemma program_mode_same_role:
  assumes m: "map_of pgm ''wl_mode'' = Some (current_mode cn)"
    and run: "ddwrt_program_mode rejects cn pgm from_db deletes sn = (r, cn', sn')"
  shows "cn' = cn \<and>
         (\<exists>cs. sn' = sn @ map Telnet cs \<and> radio_cycle \<notin> set cs \<and>
            (r = None \<longrightarrow>
              (\<exists>writes. cs = writes @ [nvram_commit, restart_services] \<and>
                 list_all nvram_write writes)))"
proof -
  let ?s1 = "map (\<lambda>(k, v). Inr (nvram_set k v)) pgm :: (failure + string) list"
  let ?s2 = "map (from_db_step cn (current_mode cn)) from_db
              @ map (\<lambda>k. Inr (nvram_unset k)) deletes @ [Inr nvram_commit]"
  obtain r1 sn1 where 1: "run_steps rejects ?s1 sn = (r1, sn1)" by force
  from run_steps_sent [OF 1] obtain cs1 where cs1:
    "sn1 = sn @ map Telnet cs1" "set cs1 \<subseteq> {c. Inr c \<in> set ?s1}" "r1 = None \<longrightarrow> map Inr cs1 = ?s1"
    by blast
  have w1: "list_all nvram_write cs1"
    using cs1(2) by (auto simp: list_all_iff)
  have nr1: "radio_cycle \<notin> set cs1"
    using w1 by (auto simp: list_all_iff)
  show ?thesis
  proof (cases r1)
    case (Some e)
    with run 1 cs1(1) nr1 show ?thesis
      by (auto simp: ddwrt_program_mode_def intro!: exI [of _ cs1])
  next
    case None
    obtain r2 sn2 where 2: "run_steps rejects ?s2 sn1 = (r2, sn2)" by force
    from run_steps_sent [OF 2] obtain cs2 where cs2:
      "sn2 = sn1 @ map Telnet cs2" "set cs2 \<subseteq> {c. Inr c \<in> set ?s2}" "r2 = None \<longrightarrow> map Inr cs2 = ?s2"
      by blast
    have nr2: "radio_cycle \<notin> set cs2"
    proof
      assume "radio_cycle \<in> set cs2"
      with cs2(2) have "Inr radio_cycle \<in> set ?s2" by blast
      then show False by (auto dest: from_db_step_write')
    qed
    show ?thesis
    proof (cases r2)
      case (Some e)
      with run 1 2 None m cs1 cs2 nr1 nr2 show ?thesis
        by (auto simp: ddwrt_program_mode_def intro!: exI [of _ "cs1 @ cs2"])
    next
      case N2: None
      with cs2(3) have "map Inr cs2 = ?s2" by simp
      then obtain ws where ws: "cs2 = ws @ [nvram_commit]" "list_all nvram_write ws"
      proof -
        from \<open>map Inr cs2 = ?s2\<close> have "cs2 \<noteq> []" by auto
        then obtain ws c where c: "cs2 = ws @ [c]" by (metis rev_exhaust)
        with \<open>map Inr cs2 = ?s2\<close> have
          "map Inr ws @ [Inr c] = (map (from_db_step cn (current_mode cn)) from_db
              @ map (\<lambda>k. Inr (nvram_unset k)) deletes) @ [Inr nvram_commit]"
          by simp
        then have e: "map Inr ws = map (from_db_step cn (current_mode cn)) from_db
              @ map (\<lambda>k. Inr (nvram_unset k)) deletes" "c = nvram_commit"
          by auto
        have "nvram_write x" if "x \<in> set ws" for x
        proof -
          from that have "Inr x \<in> set (map Inr ws :: (failure + string) list)" by auto
          with e(1) show ?thesis by (auto dest: from_db_step_write')
        qed
        then have "list_all nvram_write ws" by (simp add: list_all_iff)
        with c e(2) that show ?thesis by blast
      qed
      obtain r3 sn3 where 3: "run_steps rejects [Inr restart_services] sn2 = (r3, sn3)" by force
      have sn3: "sn3 = sn2 @ [Telnet restart_services]"
        using 3 by (auto split: if_splits)
      from run 1 2 3 None N2 m have res: "r = r3" "cn' = cn" "sn' = sn3"
        by (auto simp: ddwrt_program_mode_def)
      have "sn' = sn @ map Telnet (cs1 @ ws @ [nvram_commit, restart_services])"
        using res sn3 cs2(1) cs1(1) ws(1) by simp
      moreover have "radio_cycle \<notin> set (cs1 @ ws @ [nvram_commit, restart_services])"
        using nr1 nr2 ws(1) by auto
      moreover have "list_all nvram_write (cs1 @ ws)"
        using w1 ws(2) by simp
      ultimately show ?thesis
        using res(2) by (intro conjI exI [of _ "cs1 @ ws @ [nvram_commit, restart_services]"])
          (auto intro!: exI [of _ "cs1 @ ws"])
    qed
  qed
qed


lemma program_mode_change:
  assumes m: "map_of pgm ''wl_mode'' = Some mode" and ne: "current_mode cn \<noteq> mode"
    and run: "ddwrt_program_mode rejects cn pgm from_db deletes sn = (None, cn', sn')"
  shows "cn' = cn\<lparr>current_mode := mode\<rparr> \<and>
         (\<exists>writes. list_all nvram_write writes \<and>
            sn' = sn @ map Telnet (writes @ [nvram_commit])
                   @ [ApplyTake (address (router cn)), Sleep 5, Resync, Telnet radio_cycle])"
proof -
  let ?s1 = "map (\<lambda>(k, v). Inr (nvram_set k v)) pgm :: (failure + string) list"
  let ?s2 = "map (from_db_step cn mode) from_db
              @ map (\<lambda>k. Inr (nvram_unset k)) deletes @ [Inr nvram_commit]"
  obtain r1 sn1 where 1: "run_steps rejects ?s1 sn = (r1, sn1)" by force
  obtain r2 sn2 where 2: "run_steps rejects ?s2 sn1 = (r2, sn2)" by force
  obtain r3 sn3 where 3: "run_steps rejects [Inr radio_cycle]
       (sn2 @ [ApplyTake (address (router cn)), Sleep 5, Resync]) = (r3, sn3)" by force
  from run 1 have r1: "r1 = None"
    by (cases r1) (auto simp: ddwrt_program_mode_def)
  from run 1 2 r1 m have r2: "r2 = None"
    by (cases r2) (auto simp: ddwrt_program_mode_def)
  from run 1 2 3 r1 r2 m ne have res: "r3 = None" "cn' = cn\<lparr>current_mode := mode\<rparr>" "sn' = sn3"
    by (auto simp: ddwrt_program_mode_def)
  from 3 res(1) have sn3:
    "sn3 = sn2 @ [ApplyTake (address (router cn)), Sleep 5, Resync, Telnet radio_cycle]"
    by (auto split: if_splits)
  from run_steps_sent [OF 1] r1 obtain cs1 where cs1:
    "sn1 = sn @ map Telnet cs1" "set cs1 \<subseteq> {c. Inr c \<in> set ?s1}"
    by blast
  have w1: "list_all nvram_write cs1"
    using cs1(2) by (auto simp: list_all_iff)
  from run_steps_sent [OF 2] r2 obtain cs2 where cs2:
    "sn2 = sn1 @ map Telnet cs2" "map Inr cs2 = ?s2"
    by blast
  from cs2(2) have "cs2 \<noteq> []" by auto
  then obtain ws c where c: "cs2 = ws @ [c]" by (metis rev_exhaust)
  with cs2(2) have
    "map Inr ws @ [Inr c] = (map (from_db_step cn mode) from_db
        @ map (\<lambda>k. Inr (nvram_unset k)) deletes) @ [Inr nvram_commit]"
    by simp
  then have e: "map Inr ws = map (from_db_step cn mode) from_db
        @ map (\<lambda>k. Inr (nvram_unset k)) deletes" "c = nvram_commit"
    by auto
  have "nvram_write x" if "x \<in> set ws" for x
  proof -
    from that have "Inr x \<in> set (map Inr ws :: (failure + string) list)" by auto
    with e(1) show ?thesis by (auto dest: from_db_step_write')
  qed
  with w1 have "list_all nvram_write (cs1 @ ws)" by (auto simp: list_all_iff)
  moreover have "sn' = sn @ map Telnet ((cs1 @ ws) @ [nvram_commit])
                   @ [ApplyTake (address (router cn)), Sleep 5, Resync, Telnet radio_cycle]"
    using res(3) sn3 cs2(1) cs1(1) c e(2) by simp
  ultimately show ?thesis using res(2) by blast
qed

lemma ap_pgm_mode [simp]: "map_of (ap_pgm ssid pw) ''wl_mode'' = Some ''ap''"
  by (simp add: ap_pgm_def)

lemma sta_pgm_mode [simp]: "map_of (sta_pgm ssid) ''wl_mode'' = Some ''sta''"
  by (simp add: sta_pgm_def)

lemma program_mode_mode_after:
  assumes m: "map_of pgm ''wl_mode'' = Some mode"
    and run: "ddwrt_program_mode rejects cn pgm from_db deletes sn = (None, cn', sn')"
  shows "current_mode cn' = mode"
proof (cases "current_mode cn = mode")
  case True
  with program_mode_same_role [of pgm cn rejects from_db deletes sn None cn' sn'] m run
  show ?thesis by simp
next
  case False
  with program_mode_change [OF m _ run] show ?thesis by simp
qed

text \<open>
  C7, as the code has it. When the connection is already in the requested mode,
  \<^verbatim>\<open>ddwrt_program_mode\<close> sends command lines only: the writes of the nvram keys,
  \<^verbatim>\<open>nvram commit\<close>, and the restart of the services; it sends no \<^verbatim>\<open>ApplyTake\<close>
  post, no pause, no resynchronisation and no radio cycle, and leaves the connection as it
  was. So the second of two applications of AP mode in a row sends none of them. When the
  mode differs, the writes and the commit are followed by the post, the pause of five
  seconds, the resynchronisation and the radio cycle.
\<close>

theorem same_role_refresh:
  "(map_of pgm ''wl_mode'' = Some (current_mode cn) \<and>
    ddwrt_program_mode rejects cn pgm from_db deletes sn = (r, cn', sn') \<longrightarrow>
      cn' = cn \<and>
      (\<exists>cs. sn' = sn @ map Telnet cs \<and> radio_cycle \<notin> set cs \<and>
         (r = None \<longrightarrow>
            (\<exists>writes. cs = writes @ [nvram_commit, restart_services] \<and>
               list_all nvram_write writes))))
   \<and> (ddwrt_set_ap_mode rejects cn ssid pw sn = (None, cn1, sn1) \<and>
      ddwrt_set_ap_mode rejects cn1 ssid2 pw2 sn1 = (r2, cn2, sn2) \<longrightarrow>
      cn2 = cn1 \<and>
      (\<exists>cs. sn2 = sn1 @ map Telnet cs \<and> radio_cycle \<notin> set cs \<and>
         (r2 = None \<longrightarrow>
            (\<exists>writes. cs = writes @ [nvram_commit, restart_services] \<and>
               list_all nvram_write writes))))
   \<and> (map_of pgm ''wl_mode'' = Some mode \<and> current_mode cn \<noteq> mode \<and>
      ddwrt_program_mode rejects cn pgm from_db deletes sn = (None, cn', sn') \<longrightarrow>
      cn' = cn\<lparr>current_mode := mode\<rparr> \<and>
      (\<exists>writes. list_all nvram_write writes \<and>
         sn' = sn @ map Telnet (writes @ [nvram_commit])
                @ [ApplyTake (address (router cn)), Sleep 5, Resync, Telnet radio_cycle]))"
proof -
  have p1: "map_of pgm ''wl_mode'' = Some (current_mode cn) \<and>
    ddwrt_program_mode rejects cn pgm from_db deletes sn = (r, cn', sn') \<longrightarrow>
      cn' = cn \<and>
      (\<exists>cs. sn' = sn @ map Telnet cs \<and> radio_cycle \<notin> set cs \<and>
         (r = None \<longrightarrow>
            (\<exists>writes. cs = writes @ [nvram_commit, restart_services] \<and>
               list_all nvram_write writes)))"
  proof (rule impI)
    assume h: "map_of pgm ''wl_mode'' = Some (current_mode cn) \<and>
      ddwrt_program_mode rejects cn pgm from_db deletes sn = (r, cn', sn')"
    from h have a: "map_of pgm ''wl_mode'' = Some (current_mode cn)" by (rule conjunct1)
    from h have b: "ddwrt_program_mode rejects cn pgm from_db deletes sn = (r, cn', sn')"
      by (rule conjunct2)
    show "cn' = cn \<and>
        (\<exists>cs. sn' = sn @ map Telnet cs \<and> radio_cycle \<notin> set cs \<and>
           (r = None \<longrightarrow>
              (\<exists>writes. cs = writes @ [nvram_commit, restart_services] \<and>
                 list_all nvram_write writes)))"
      by (rule program_mode_same_role [OF a b])
  qed
  have p2: "ddwrt_set_ap_mode rejects cn ssid pw sn = (None, cn1, sn1) \<and>
      ddwrt_set_ap_mode rejects cn1 ssid2 pw2 sn1 = (r2, cn2, sn2) \<longrightarrow>
      cn2 = cn1 \<and>
      (\<exists>cs. sn2 = sn1 @ map Telnet cs \<and> radio_cycle \<notin> set cs \<and>
         (r2 = None \<longrightarrow>
            (\<exists>writes. cs = writes @ [nvram_commit, restart_services] \<and>
               list_all nvram_write writes)))"
  proof (rule impI)
    assume h: "ddwrt_set_ap_mode rejects cn ssid pw sn = (None, cn1, sn1) \<and>
        ddwrt_set_ap_mode rejects cn1 ssid2 pw2 sn1 = (r2, cn2, sn2)"
    from h have a: "ddwrt_program_mode rejects cn (ap_pgm ssid pw)
         [''wl0_hw_rxchain'', ''wl0_hw_txchain'', ''wan_hwaddr'']
         [''wan_ipaddr_buf'', ''wan_ipaddr_static'', ''wan_netmask_static'', ''wl0_vifs'']
         sn = (None, cn1, sn1)"
      by (simp add: ddwrt_set_ap_mode_def)
    from h have b: "ddwrt_program_mode rejects cn1 (ap_pgm ssid2 pw2)
         [''wl0_hw_rxchain'', ''wl0_hw_txchain'', ''wan_hwaddr'']
         [''wan_ipaddr_buf'', ''wan_ipaddr_static'', ''wan_netmask_static'', ''wl0_vifs'']
         sn1 = (r2, cn2, sn2)"
      by (simp add: ddwrt_set_ap_mode_def)
    have "current_mode cn1 = ''ap''"
      by (rule program_mode_mode_after [OF ap_pgm_mode a])
    then have c: "map_of (ap_pgm ssid2 pw2) ''wl_mode'' = Some (current_mode cn1)" by simp
    show "cn2 = cn1 \<and>
        (\<exists>cs. sn2 = sn1 @ map Telnet cs \<and> radio_cycle \<notin> set cs \<and>
           (r2 = None \<longrightarrow>
              (\<exists>writes. cs = writes @ [nvram_commit, restart_services] \<and>
                 list_all nvram_write writes)))"
      by (rule program_mode_same_role [OF c b])
  qed
  have p3: "map_of pgm ''wl_mode'' = Some mode \<and> current_mode cn \<noteq> mode \<and>
      ddwrt_program_mode rejects cn pgm from_db deletes sn = (None, cn', sn') \<longrightarrow>
      cn' = cn\<lparr>current_mode := mode\<rparr> \<and>
      (\<exists>writes. list_all nvram_write writes \<and>
         sn' = sn @ map Telnet (writes @ [nvram_commit])
                @ [ApplyTake (address (router cn)), Sleep 5, Resync, Telnet radio_cycle])"
  proof (rule impI)
    assume h: "map_of pgm ''wl_mode'' = Some mode \<and> current_mode cn \<noteq> mode \<and>
        ddwrt_program_mode rejects cn pgm from_db deletes sn = (None, cn', sn')"
    from h have a: "map_of pgm ''wl_mode'' = Some mode" by (rule conjunct1)
    from h have b: "current_mode cn \<noteq> mode" by simp
    from h have c: "ddwrt_program_mode rejects cn pgm from_db deletes sn = (None, cn', sn')"
      by simp
    show "cn' = cn\<lparr>current_mode := mode\<rparr> \<and>
        (\<exists>writes. list_all nvram_write writes \<and>
           sn' = sn @ map Telnet (writes @ [nvram_commit])
                  @ [ApplyTake (address (router cn)), Sleep 5, Resync, Telnet radio_cycle])"
      by (rule program_mode_change [OF a b c])
  qed
  from p1 p2 p3 show ?thesis by (intro conjI)
qed

theorem same_role_refresh_witness:
  "fst (ddwrt_set_ap_mode accepts_all (node_D\<lparr>current_mode := ''sta''\<rparr>) ''TestNet'' ''abc12cd34'' [])
     = None
   \<and> ApplyTake ''192.168.1.3''
       \<in> set (snd (snd (ddwrt_set_ap_mode accepts_all (node_D\<lparr>current_mode := ''sta''\<rparr>)
                          ''TestNet'' ''abc12cd34'' [])))
   \<and> (\<exists>cs. snd (snd (ddwrt_set_ap_mode accepts_all
                (fst (snd (ddwrt_set_ap_mode accepts_all (node_D\<lparr>current_mode := ''sta''\<rparr>)
                          ''TestNet'' ''abc12cd34'' [])))
                ''TestNet'' ''abc12cd34''
                (snd (snd (ddwrt_set_ap_mode accepts_all (node_D\<lparr>current_mode := ''sta''\<rparr>)
                          ''TestNet'' ''abc12cd34'' [])))))
          = snd (snd (ddwrt_set_ap_mode accepts_all (node_D\<lparr>current_mode := ''sta''\<rparr>)
                          ''TestNet'' ''abc12cd34'' [])) @ map Telnet cs
          \<and> radio_cycle \<notin> set cs)"
proof -
  let ?A1 = "ddwrt_set_ap_mode accepts_all (node_D\<lparr>current_mode := ''sta''\<rparr>)
               ''TestNet'' ''abc12cd34'' []"
  let ?A2 = "ddwrt_set_ap_mode accepts_all (fst (snd ?A1)) ''TestNet'' ''abc12cd34''
               (snd (snd ?A1))"
  have h1: "fst ?A1 = None"
    by (simp add: ddwrt_set_ap_mode_def ddwrt_program_mode_def ap_pgm_def accepts_all_def
          node_D_def from_db_step_def learned_ap_def learned_sta_def)
  have h2: "ApplyTake ''192.168.1.3'' \<in> set (snd (snd ?A1))"
    by (simp add: ddwrt_set_ap_mode_def ddwrt_program_mode_def ap_pgm_def accepts_all_def
          node_D_def from_db_step_def learned_ap_def learned_sta_def)
  from h1 have e1: "?A1 = (None, fst (snd ?A1), snd (snd ?A1))"
    by (simp add: prod_eq_iff)
  have e2: "?A2 = (fst ?A2, fst (snd ?A2), snd (snd ?A2))"
    by simp
  from same_role_refresh [THEN conjunct2, THEN conjunct1, rule_format, OF conjI [OF e1 e2]]
  have "\<exists>cs. snd (snd ?A2) = snd (snd ?A1) @ map Telnet cs \<and> radio_cycle \<notin> set cs"
    by blast
  with h1 h2 show ?thesis by blast
qed

text \<open>
  The claim as written, that the restart of the services is the only command of a
  same-role application and that the commit is never sent, fails: the keys are written and
  committed on every application.
\<close>

theorem same_role_counterexample:
  "snd (snd (ddwrt_set_ap_mode accepts_all node_D ''TestNet'' ''abc12cd34'' []))
     \<noteq> [Telnet restart_services]
   \<and> Telnet nvram_commit \<in> set (snd (snd (ddwrt_set_ap_mode accepts_all node_D ''TestNet'' ''abc12cd34'' [])))
   \<and> current_mode node_D = ''ap''"
  by (simp add: ddwrt_set_ap_mode_def ddwrt_program_mode_def ap_pgm_def accepts_all_def
        node_D_def from_db_step_def learned_ap_def learned_sta_def)

section \<open>Runs of \<^verbatim>\<open>provision_list\<close> that process nothing\<close>

lemma provision_loop_all_skipped:
  "\<forall>i \<in> set js. skipped a (device_queue w ! i) \<Longrightarrow>
     provision_loop rejects a nv roles js eps w = Some (None, w)"
  by (induction js) simp_all

lemma completed_skipped: "CompletedTime rec \<noteq> None \<Longrightarrow> skipped a rec"
  by (simp add: skipped_def)

text \<open>
  C9. When every instruction of the queue carries \<^verbatim>\<open>CompletedTime\<close>, the run ends in
  \<^verbatim>\<open>check_for_device_queue\<close> before anything is done: the state is unchanged, so both
  stores, in memory and on file, are as before and no instruction is counted. The loop
  itself would also skip every record of such a queue.
\<close>

theorem rerun_all_completed:
  "\<forall>rec \<in> set (device_queue w). CompletedTime rec \<noteq> None \<Longrightarrow>
     provision_list rejects a nv eps w =
       Some (Some (SysExit (if device_queue w = [] then ListEmpty else NoEntriesReady)), w)
     \<and> provision_loop rejects a nv roles [0..<length (device_queue w)] eps w = Some (None, w)"
proof
  assume h: "\<forall>rec \<in> set (device_queue w). CompletedTime rec \<noteq> None"
  then have "\<not> list_ex (\<lambda>rec. CompletedTime rec = None \<and>
                 (no_group (group a) \<or> (Group rec \<noteq> None \<and> Group rec = group a))) (device_queue w)"
    by (auto simp: list_ex_iff)
  then show "provision_list rejects a nv eps w =
       Some (Some (SysExit (if device_queue w = [] then ListEmpty else NoEntriesReady)), w)"
    by (simp add: provision_list_def check_for_device_queue_def)
  from h have "\<forall>i \<in> set [0..<length (device_queue w)]. skipped a (device_queue w ! i)"
    by (auto intro: completed_skipped)
  then show "provision_loop rejects a nv roles [0..<length (device_queue w)] eps w = Some (None, w)"
    by (rule provision_loop_all_skipped)
qed

theorem rerun_all_completed_witness:
  "list_all (\<lambda>rec. CompletedTime rec \<noteq> None)
     (device_queue
        (world_of [(instr ''TestNet'' 100)\<lparr>InProgressTime := Some 200,
                     CompletedTime := Some 210\<rparr>] [node_D]))
   \<and> provision_list accepts_all default_args None []
        (world_of [(instr ''TestNet'' 100)\<lparr>InProgressTime := Some 200,
                     CompletedTime := Some 210\<rparr>] [node_D])
      = Some (Some (SysExit NoEntriesReady),
          world_of [(instr ''TestNet'' 100)\<lparr>InProgressTime := Some 200,
                     CompletedTime := Some 210\<rparr>] [node_D])"
  using rerun_all_completed
          [of "world_of [(instr ''TestNet'' 100)\<lparr>InProgressTime := Some 200,
                     CompletedTime := Some 210\<rparr>] [node_D]" accepts_all default_args None "[]"]
  by (simp add: world_of_def instr_def)

text \<open>
  C6. When no connected control device is capable of AP mode, or none of client mode,
  \<^verbatim>\<open>ddwrt_choose_roles\<close> prints its message and exits, and the run of
  \<^verbatim>\<open>provision_list\<close> ends with an exit and an unchanged state: no instruction is
  processed. (The exit can be the one of the queue check, which comes first.)
\<close>

theorem no_capable_device_is_fatal:
  "capable ''ap'' (nodes w) = [] \<or> capable ''sta'' (nodes w) = [] \<Longrightarrow>
     ddwrt_choose_roles (nodes w) =
       Inl (SysExit (if capable ''ap'' (nodes w) = [] then NoAPCapable else NoSTACapable))
     \<and> (\<exists>m. provision_list rejects a nv eps w = Some (Some (SysExit m), w))"
proof
  assume h: "capable ''ap'' (nodes w) = [] \<or> capable ''sta'' (nodes w) = []"
  then show c: "ddwrt_choose_roles (nodes w) =
       Inl (SysExit (if capable ''ap'' (nodes w) = [] then NoAPCapable else NoSTACapable))"
    by (auto simp: ddwrt_choose_roles_def Let_def)
  show "\<exists>m. provision_list rejects a nv eps w = Some (Some (SysExit m), w)"
  proof (cases "check_for_device_queue (device_queue w) (group a)")
    case None
    with c show ?thesis by (simp add: provision_list_def)
  next
    case (Some e)
    then obtain m where "e = SysExit m"
      by (auto simp: check_for_device_queue_def split: if_splits)
    with Some show ?thesis by (simp add: provision_list_def)
  qed
qed

theorem no_capable_device_is_fatal_witness:
  "capable ''sta'' (nodes (world_of [instr ''TestNet'' 100] [node_A])) = []
   \<and> provision_list accepts_all default_args None [] (world_of [instr ''TestNet'' 100] [node_A])
      = Some (Some (SysExit NoSTACapable), world_of [instr ''TestNet'' 100] [node_A])"
proof -
  have c: "capable ''sta'' (nodes (world_of [instr ''TestNet'' 100] [node_A])) = []"
    and a: "capable ''ap'' (nodes (world_of [instr ''TestNet'' 100] [node_A])) \<noteq> []"
    by (simp_all add: world_of_def capable_single has_profile_def node_A_def)
  have q: "check_for_device_queue
             (device_queue (world_of [instr ''TestNet'' 100] [node_A])) (group default_args) = None"
    by (simp add: check_for_device_queue_def world_of_def instr_def no_group_def
          default_args_def)
  from no_capable_device_is_fatal
         [of "world_of [instr ''TestNet'' 100] [node_A]" accepts_all default_args None "[]"] c a
  have "ddwrt_choose_roles (nodes (world_of [instr ''TestNet'' 100] [node_A]))
          = Inl (SysExit NoSTACapable)"
    by simp
  with q c show ?thesis by (simp add: provision_list_def)
qed

section \<open>Failures while an instruction is processed\<close>

lemma same_stores_refl [simp]: "same_stores w w"
  by (simp add: same_stores_def)

lemma same_stores_trans: "same_stores w w1 \<Longrightarrow> same_stores w1 w2 \<Longrightarrow> same_stores w w2"
  by (simp add: same_stores_def)

lemma set_ap_mode_at_stores: "set_ap_mode_at rejects i s p w = (r, w') \<Longrightarrow> same_stores w w'"
  by (auto simp: set_ap_mode_at_def same_stores_def split: prod.splits)

lemma set_sta_mode_at_stores: "set_sta_mode_at rejects i s w = (r, w') \<Longrightarrow> same_stores w w'"
  by (auto simp: set_sta_mode_at_def same_stores_def split: prod.splits)

lemma set_ap_for_stores: "set_ap_for rejects i rec w = (r, w') \<Longrightarrow> same_stores w w'"
  by (auto simp: set_ap_for_def key_def split: option.splits dest: set_ap_mode_at_stores)

lemma program_attempts_stores:
  "program_attempts rejects roles rec ssid as n w = Some (r, w') \<Longrightarrow> same_stores w w'"
proof (induction as arbitrary: n w)
  case Nil
  then show ?case by simp
next
  case (Cons a as)
  obtain r1 w1 where 1:
    "(if two_devices roles w then set_ap_for rejects (fst roles) rec w else (None, w)) = (r1, w1)"
    by force
  then have s1: "same_stores w w1"
    by (auto split: if_splits dest: set_ap_for_stores)
  obtain r2 w2 where 2: "set_sta_mode_at rejects (snd roles) ssid w1 = (r2, w2)"
    by force
  then have s2: "same_stores w1 w2" by (rule set_sta_mode_at_stores)
  from s1 s2 have s: "same_stores w w2" by (rule same_stores_trans)
  show ?case
  proof (cases r1)
    case (Some e)
    with Cons.prems 1 s1 show ?thesis by (simp add: Let_def)
  next
    case None
    note r1 = this
    show ?thesis
    proof (cases r2)
      case (Some e)
      with Cons.prems 1 2 r1 s show ?thesis by (simp add: Let_def)
    next
      case None
      with Cons.prems 1 2 r1 s show ?thesis
        by (auto simp: Let_def split: if_splits option.splits prod.splits
              dest!: Cons.IH intro: same_stores_trans)
    qed
  qed
qed

lemma ota_poll_failure:
  "ota_poll deadline nv result url seen passes urls ps = Some (Inl e, us) \<Longrightarrow>
     e = Raised UnboundLocalError"
  by (induction ps arbitrary: seen passes urls)
     (auto split: if_splits option.splits)

lemma flash_device_failure:
  "flash_device addr fw timeout nv dry env = Some (Inl e, us) \<Longrightarrow> e = Raised UnboundLocalError"
  by (auto simp: flash_device_def Let_def split: option.splits if_splits dest: ota_poll_failure)


lemma finish_up_shape:
  assumes run: "finish_up_device a nv i dev ep cs w = Some (r, w')"
  shows "\<exists>rec'. device_queue w' = (device_queue w)[i := rec'] \<and>
           InsertTime rec' = InsertTime (device_queue w ! i) \<and>
           InProgressTime rec' = InProgressTime (device_queue w ! i) \<and>
           CompletedTime rec' = CompletedTime (device_queue w ! i) \<and>
           ConfirmedTime rec' = Some (t_confirmed ep) \<and>
           queue_file w' = queue_file w \<and>
           (r = None \<or> r = Some (Raised TypeError) \<or> r = Some (Raised UnboundLocalError))"
proof (cases "new_status ep")
  case None
  with run show ?thesis
    by (auto simp: finish_up_device_def Let_def)
next
  case (Some st)
  show ?thesis
  proof (cases "ota a = []")
    case True
    with run Some show ?thesis
      by (auto simp: finish_up_device_def Let_def)
  next
    case False
    show ?thesis
    proof (cases "flash_device dev (ota a) (ota_timeout a) nv (dry_run a) (ota_run ep)")
      case None
      with run Some False show ?thesis
        by (simp add: finish_up_device_def Let_def)
    next
      case F: (Some res)
      obtain x urls where res: "res = (x, urls)" by (cases res)
      show ?thesis
      proof (cases x)
        case (Inl e)
        with F res have "e = Raised UnboundLocalError"
          by (auto dest: flash_device_failure)
        with run Some False F res Inl show ?thesis
          by (auto simp: finish_up_device_def Let_def)
      next
        case (Inr y)
        with run Some False F res show ?thesis
          by (cases "returns y") (auto simp: finish_up_device_def Let_def)
      qed
    qed
  qed
qed


lemma run_steps_failure:
  "run_steps rejects steps sn = (Some e, sn') \<Longrightarrow> e = Raised CommandError \<or> Inl e \<in> set steps"
  by (induction rejects steps sn rule: run_steps.induct) (auto split: if_splits)

lemma from_db_step_failure: "from_db_step cn mode k = Inl e \<Longrightarrow> e = Raised KeyError"
  by (auto simp: from_db_step_def split: option.splits)

lemma program_mode_failure:
  assumes "ddwrt_program_mode rejects cn pgm from_db deletes sn = (Some e, cn', sn')"
  shows "e = Raised CommandError \<or> e = Raised KeyError"
proof -
  let ?s1 = "map (\<lambda>(k, v). Inr (nvram_set k v)) pgm :: (failure + string) list"
  obtain r1 sn1 where 1: "run_steps rejects ?s1 sn = (r1, sn1)" by force
  show ?thesis
  proof (cases r1)
    case (Some e1)
    with 1 assms have "e = e1" by (simp add: ddwrt_program_mode_def)
    with run_steps_failure [of rejects ?s1 sn e1 sn1] 1 Some show ?thesis by auto
  next
    case None
    note r1 = this
    show ?thesis
    proof (cases "map_of pgm ''wl_mode''")
      case None
      with 1 r1 assms show ?thesis by (simp add: ddwrt_program_mode_def)
    next
      case (Some mode)
      let ?s2 = "map (from_db_step cn mode) from_db
              @ map (\<lambda>k. Inr (nvram_unset k)) deletes @ [Inr nvram_commit]"
      obtain r2 sn2 where 2: "run_steps rejects ?s2 sn1 = (r2, sn2)" by force
      show ?thesis
      proof (cases r2)
        case S2: (Some e2)
        with 1 2 r1 Some assms have "e = e2" by (simp add: ddwrt_program_mode_def)
        with run_steps_failure [of rejects ?s2 sn1 e2 sn2] 2 S2 show ?thesis
          by (auto dest: from_db_step_failure sym)
      next
        case None
        with 1 2 r1 Some assms show ?thesis
          by (auto simp: ddwrt_program_mode_def split: if_splits prod.splits)
      qed
    qed
  qed
qed

lemma set_sta_mode_at_failure:
  "set_sta_mode_at rejects i s w = (Some e, w') \<Longrightarrow> e = Raised CommandError \<or> e = Raised KeyError"
  by (auto simp: set_sta_mode_at_def ddwrt_set_sta_mode_def split: prod.splits
        dest: program_mode_failure)

lemma set_ap_for_failure:
  "set_ap_for rejects i rec w = (Some e, w') \<Longrightarrow> e = Raised CommandError \<or> e = Raised KeyError"
  by (auto simp: set_ap_for_def key_def set_ap_mode_at_def ddwrt_set_ap_mode_def
        split: option.splits prod.splits dest: program_mode_failure)

lemma program_attempts_failure:
  "program_attempts rejects roles rec ssid as n w = Some (Some e, w') \<Longrightarrow>
     e = Raised CommandError \<or> e = Raised KeyError \<or> e = Raised JSONDecodeError \<or>
     e = SysExit AttemptsExhausted"
proof (induction as arbitrary: n w)
  case Nil
  then show ?case by simp
next
  case (Cons a as)
  obtain r1 w1 where 1:
    "(if two_devices roles w then set_ap_for rejects (fst roles) rec w else (None, w)) = (r1, w1)"
    by force
  obtain r2 w2 where 2: "set_sta_mode_at rejects (snd roles) ssid w1 = (r2, w2)"
    by force
  show ?case
  proof (cases r1)
    case (Some e1)
    with Cons.prems 1 have "e = e1" by (simp add: Let_def)
    with 1 Some show ?thesis by (auto split: if_splits dest: set_ap_for_failure)
  next
    case None
    note r1 = this
    show ?thesis
    proof (cases r2)
      case (Some e2)
      with Cons.prems 1 2 r1 have "e = e2" by (simp add: Let_def)
      with 2 Some show ?thesis by (auto dest: set_sta_mode_at_failure)
    next
      case None
      with Cons.prems 1 2 r1 show ?thesis
        by (auto simp: Let_def settings_keys_def split: if_splits option.splits prod.splits
              dest!: Cons.IH)
    qed
  qed
qed

lemma provision_one_shape:
  assumes run: "provision_one rejects a nv roles i ep w = Some (r, w')"
    and i: "i < length (device_queue w)"
  shows "\<exists>ra rb.
           device_queue w' = (device_queue w)[i := ra] \<and>
           queue_file w' = (device_queue w)[i := rb] \<and>
           InsertTime ra = InsertTime (device_queue w ! i) \<and>
           InsertTime rb = InsertTime (device_queue w ! i) \<and>
           InProgressTime ra = Some (t_in_progress ep) \<and>
           InProgressTime rb = Some (t_in_progress ep) \<and>
           CompletedTime rb = (if r = None \<or> r = Some (Raised TypeError) \<or> r = Some (Raised UnboundLocalError)
                               then Some (t_completed ep) else CompletedTime (device_queue w ! i)) \<and>
           ConfirmedTime rb = ConfirmedTime (device_queue w ! i) \<and>
           ((r \<noteq> None \<and> ra = rb \<and> device_db w' = device_db w \<and> db_file w' = db_file w)
            \<or> ((r = Some (Raised JSONDecodeError) \<or> r = Some (SysExit DeviceNotFound)) \<and>
                CompletedTime ra = Some (t_completed ep) \<and>
                ConfirmedTime ra = ConfirmedTime (device_queue w ! i) \<and>
                device_db w' = device_db w \<and> db_file w' = db_file w)
            \<or> ((r = None \<or> r = Some (Raised TypeError) \<or> r = Some (Raised UnboundLocalError)) \<and>
                CompletedTime ra = Some (t_completed ep) \<and>
                ConfirmedTime ra = Some (t_confirmed ep)))"
proof -
  let ?q = "device_queue w"
  let ?w = "w\<lparr>setup_count := setup_count w + 1\<rparr>"
  from run obtain ssid where d: "discover (discoveries ep) = Some ssid"
    by (cases "discover (discoveries ep)") (auto simp: provision_one_def Let_def)
  let ?rec1 = "(?q ! i)\<lparr>factory_ssid := Some ssid, InProgressTime := Some (t_in_progress ep)\<rparr>"
  let ?q1 = "?q[i := ?rec1]"
  let ?w1 = "?w\<lparr>device_queue := ?q1, queue_file := ?q1\<rparr>"
  from run d obtain ra wa where pa: "program_attempts rejects roles ?rec1 ssid (attempts ep) 0 ?w1 = Some (ra, wa)"
    by (cases "program_attempts rejects roles ?rec1 ssid (attempts ep) 0 ?w1")
       (auto simp: provision_one_def Let_def)
  from program_attempts_stores [OF pa] have sa:
    "device_queue wa = ?q1" "queue_file wa = ?q1" "device_db wa = device_db w" "db_file wa = db_file w"
    by (simp_all add: same_stores_def)
  show ?thesis
  proof (cases ra)
    case (Some e)
    with run d pa have res: "r = Some e" "w' = wa"
      by (auto simp: provision_one_def Let_def)
    from pa Some have "e = Raised CommandError \<or> e = Raised KeyError \<or> e = Raised JSONDecodeError \<or>
       e = SysExit AttemptsExhausted"
      by (auto dest: program_attempts_failure)
    with res sa show ?thesis
      by (intro exI [of _ ?rec1]) auto
  next
    case None
    note ra = this
    obtain rb wb where sb: "(if two_devices roles wa then (None, wa)
                      else set_ap_for rejects (fst roles) ?rec1 wa) = (rb, wb)"
      by force
    then have "same_stores wa wb"
      by (auto split: if_splits dest: set_ap_for_stores)
    with sa have sb': "device_queue wb = ?q1" "queue_file wb = ?q1" "device_db wb = device_db w"
      "db_file wb = db_file w"
      by (simp_all add: same_stores_def)
    show ?thesis
    proof (cases rb)
      case (Some e)
      with run d pa ra sb have res: "r = Some e" "w' = wb"
        by (auto simp: provision_one_def Let_def split: if_splits)
      from sb Some have "e = Raised CommandError \<or> e = Raised KeyError"
        by (auto split: if_splits dest: set_ap_for_failure)
      with res sb' show ?thesis
        by (intro exI [of _ ?rec1]) auto
    next
      case None
      note rb = this
      let ?rec2 = "?rec1\<lparr>CompletedTime := Some (t_completed ep)\<rparr>"
      let ?w4 = "wb\<lparr>device_queue := (device_queue wb)[i := ?rec2]\<rparr>"
      have q4: "device_queue ?w4 = ?q[i := ?rec2]"
        using sb' by simp
      show ?thesis
      proof (cases "located ep")
        case NoAnswer
        with run d pa ra sb rb have res: "r = Some (Raised JSONDecodeError)" "w' = ?w4"
          by (auto simp: provision_one_def Let_def split: if_splits)
        with q4 sb' show ?thesis
          by (intro exI [of _ ?rec2] exI [of _ ?rec1]) auto
      next
        case EmptyString
        with run d pa ra sb rb have res: "r = Some (SysExit DeviceNotFound)" "w' = ?w4"
          by (auto simp: provision_one_def Let_def split: if_splits)
        with q4 sb' show ?thesis
          by (intro exI [of _ ?rec2] exI [of _ ?rec1]) auto
      next
        case (Settings cs)
        let ?w5 = "?w4\<lparr>success_count := success_count ?w4 + 1, queue_file := device_queue ?w4\<rparr>"
        let ?ip = "case StaticIP ?rec1 of Some ip \<Rightarrow> ip | None \<Rightarrow> ssid"
        from run d pa ra sb rb Settings
        have f: "finish_up_device a nv i ?ip ep cs ?w5 = Some (r, w')"
          by (auto simp: provision_one_def Let_def split: if_splits)
        from finish_up_shape [OF f] obtain rec' where rec':
          "device_queue w' = (device_queue ?w5)[i := rec']"
          "InsertTime rec' = InsertTime (device_queue ?w5 ! i)"
          "InProgressTime rec' = InProgressTime (device_queue ?w5 ! i)"
          "CompletedTime rec' = CompletedTime (device_queue ?w5 ! i)"
          "ConfirmedTime rec' = Some (t_confirmed ep)"
          "queue_file w' = queue_file ?w5"
          "r = None \<or> r = Some (Raised TypeError) \<or> r = Some (Raised UnboundLocalError)"
          by blast
        have q5: "device_queue ?w5 = ?q[i := ?rec2]" "queue_file ?w5 = ?q[i := ?rec2]"
          using q4 by simp_all
        from i have n5: "device_queue ?w5 ! i = ?rec2"
          unfolding q5 by simp
        have dq: "device_queue w' = ?q[i := rec']"
          unfolding rec'(1) q5 by simp
        have qf: "queue_file w' = ?q[i := ?rec2]"
          unfolding rec'(6) q5 ..
        have st: "InsertTime rec' = InsertTime (?q ! i)"
          "InProgressTime rec' = Some (t_in_progress ep)"
          "CompletedTime rec' = Some (t_completed ep)"
          using rec'(2,3,4) unfolding n5 by simp_all
        from dq qf st rec'(5,7) show ?thesis
          by (intro exI [of _ rec'] exI [of _ ?rec2]) auto
      qed
    qed
  qed
qed

lemma program_attempts_exhausted:
  "program_attempts rejects roles rec ssid as n w = Some (Some (SysExit AttemptsExhausted), w') \<Longrightarrow>
     10 \<le> n + length as"
proof (induction as arbitrary: n w)
  case Nil
  then show ?case by simp
next
  case (Cons a as)
  obtain r1 w1 where 1:
    "(if two_devices roles w then set_ap_for rejects (fst roles) rec w else (None, w)) = (r1, w1)"
    by force
  obtain r2 w2 where 2: "set_sta_mode_at rejects (snd roles) ssid w1 = (r2, w2)"
    by force
  show ?case
  proof (cases r1)
    case (Some e1)
    with Cons.prems 1 have "e1 = SysExit AttemptsExhausted" by (simp add: Let_def)
    with 1 Some show ?thesis by (auto split: if_splits dest: set_ap_for_failure)
  next
    case None
    note r1 = this
    show ?thesis
    proof (cases r2)
      case (Some e2)
      with Cons.prems 1 2 r1 have "e2 = SysExit AttemptsExhausted" by (simp add: Let_def)
      with 2 Some show ?thesis by (auto dest: set_sta_mode_at_failure)
    next
      case None
      with Cons.prems 1 2 r1 show ?thesis
        by (auto simp: Let_def settings_keys_def split: if_splits option.splits prod.splits
              dest!: Cons.IH)
    qed
  qed
qed

lemma provision_one_exhausted:
  assumes run: "provision_one rejects a nv roles i ep w = Some (Some (SysExit AttemptsExhausted), w')"
  shows "10 \<le> length (attempts ep)"
proof -
  let ?w = "w\<lparr>setup_count := setup_count w + 1\<rparr>"
  from run obtain ssid where d: "discover (discoveries ep) = Some ssid"
    by (cases "discover (discoveries ep)") (auto simp: provision_one_def Let_def)
  let ?rec1 = "(device_queue ?w ! i)\<lparr>factory_ssid := Some ssid, InProgressTime := Some (t_in_progress ep)\<rparr>"
  let ?q1 = "(device_queue ?w)[i := ?rec1]"
  let ?w1 = "?w\<lparr>device_queue := ?q1, queue_file := ?q1\<rparr>"
  from run d obtain ra wa where pa: "program_attempts rejects roles ?rec1 ssid (attempts ep) 0 ?w1 = Some (ra, wa)"
    by (cases "program_attempts rejects roles ?rec1 ssid (attempts ep) 0 ?w1")
       (auto simp: provision_one_def Let_def)
  show ?thesis
  proof (cases ra)
    case (Some e)
    with run d pa have "e = SysExit AttemptsExhausted"
      by (auto simp: provision_one_def Let_def)
    with pa Some show ?thesis by (auto dest: program_attempts_exhausted)
  next
    case None
    note ra = this
    obtain rb wb where sb: "(if two_devices roles wa then (None, wa)
                      else set_ap_for rejects (fst roles) ?rec1 wa) = (rb, wb)"
      by force
    show ?thesis
    proof (cases rb)
      case (Some e)
      with run d pa ra sb have "e = SysExit AttemptsExhausted"
        by (auto simp: provision_one_def Let_def split: if_splits)
      with sb Some show ?thesis by (auto split: if_splits dest: set_ap_for_failure)
    next
      case None
      let ?ip = "case StaticIP ?rec1 of Some ip \<Rightarrow> ip | None \<Rightarrow> ssid"
      from run d pa ra sb None obtain cs w5 where
        "finish_up_device a nv i ?ip ep cs w5 = Some (Some (SysExit AttemptsExhausted), w')"
        by (cases "located ep") (auto simp: provision_one_def Let_def split: if_splits)
      from finish_up_shape [OF this] show ?thesis by auto
    qed
  qed
qed

text \<open>
  C2, as the code has it. When the programming attempts are used up (ten attempts, each
  ending with the device still in the survey), or the device is not found on the new
  network (the exit with "Failed to find device on network", or the exception of
  \<^verbatim>\<open>json.loads\<close> on an empty answer), the whole run ends there: the loop returns the
  failure whatever positions and episodes remain. The queue file holds the instruction with
  \<^verbatim>\<open>InProgressTime\<close> and without \<^verbatim>\<open>CompletedTime\<close>, every other record is as it
  was, and the device database is untouched.
\<close>

theorem retry_exhaustion_ends_run:
  assumes i: "i < length (device_queue w)"
    and ns: "\<not> skipped a (device_queue w ! i)"
    and run: "provision_one rejects a nv roles i ep w = Some (Some e, w')"
    and e: "e = SysExit AttemptsExhausted \<or> e = SysExit DeviceNotFound \<or> e = Raised JSONDecodeError"
  shows "provision_loop rejects a nv roles (i # js) (ep # eps) w = Some (Some e, w')
     \<and> InProgressTime (queue_file w' ! i) = Some (t_in_progress ep)
     \<and> CompletedTime (queue_file w' ! i) = None
     \<and> (\<forall>j. j \<noteq> i \<longrightarrow> device_queue w' ! j = device_queue w ! j \<and>
                       queue_file w' ! j = device_queue w ! j)
     \<and> device_db w' = device_db w \<and> db_file w' = db_file w
     \<and> (e = SysExit AttemptsExhausted \<longrightarrow> 10 \<le> length (attempts ep))"
proof -
  from ns have c: "CompletedTime (device_queue w ! i) = None"
    by (simp add: skipped_def)
  from ns run have l: "provision_loop rejects a nv roles (i # js) (ep # eps) w = Some (Some e, w')"
    by simp
  from provision_one_shape [OF run i] obtain ra rb where s:
    "device_queue w' = (device_queue w)[i := ra]"
    "queue_file w' = (device_queue w)[i := rb]"
    "InProgressTime rb = Some (t_in_progress ep)"
    "CompletedTime rb = (if Some e = None \<or> Some e = Some (Raised TypeError) \<or>
                            Some e = Some (Raised UnboundLocalError)
                         then Some (t_completed ep) else CompletedTime (device_queue w ! i))"
    "(Some e \<noteq> None \<and> ra = rb \<and> device_db w' = device_db w \<and> db_file w' = db_file w)
      \<or> ((Some e = Some (Raised JSONDecodeError) \<or> Some e = Some (SysExit DeviceNotFound)) \<and>
          CompletedTime ra = Some (t_completed ep) \<and>
          ConfirmedTime ra = ConfirmedTime (device_queue w ! i) \<and>
          device_db w' = device_db w \<and> db_file w' = db_file w)
      \<or> ((Some e = None \<or> Some e = Some (Raised TypeError) \<or> Some e = Some (Raised UnboundLocalError)) \<and>
          CompletedTime ra = Some (t_completed ep) \<and>
          ConfirmedTime ra = Some (t_confirmed ep))"
    by blast
  from s(1,2) have others: "\<forall>j. j \<noteq> i \<longrightarrow> device_queue w' ! j = device_queue w ! j \<and>
                       queue_file w' ! j = device_queue w ! j"
    by simp
  from s(2,3,4) i e c have stamps: "InProgressTime (queue_file w' ! i) = Some (t_in_progress ep)"
    "CompletedTime (queue_file w' ! i) = None"
    by auto
  from s(5) e have db: "device_db w' = device_db w" "db_file w' = db_file w"
    by auto
  have "e = SysExit AttemptsExhausted \<longrightarrow> 10 \<le> length (attempts ep)"
    using run by (auto dest: provision_one_exhausted)
  with l others stamps db show ?thesis by simp
qed

theorem retry_exhaustion_ends_run_witness:
  "provision_loop accepts_all default_args None (0, 0) [0, 1] [ep_stuck, ep_good]
     (world_of [instr ''NetA'' 100, instr ''NetB'' 101] [node_D])
   = Some (Some (SysExit AttemptsExhausted),
       snd (the (provision_one accepts_all default_args None (0, 0) 0 ep_stuck
                   (world_of [instr ''NetA'' 100, instr ''NetB'' 101] [node_D]))))
   \<and> CompletedTime (queue_file
        (snd (the (provision_one accepts_all default_args None (0, 0) 0 ep_stuck
                   (world_of [instr ''NetA'' 100, instr ''NetB'' 101] [node_D])))) ! 0) = None
   \<and> 10 \<le> length (attempts ep_stuck)"
proof -
  let ?w = "world_of [instr ''NetA'' 100, instr ''NetB'' 101] [node_D]"
  let ?X = "provision_one accepts_all default_args None (0, 0) 0 ep_stuck ?w"
  have "map_option fst ?X = Some (Some (SysExit AttemptsExhausted))"
    by code_simp
  then have run: "?X = Some (Some (SysExit AttemptsExhausted), snd (the ?X))"
    by (cases ?X) auto
  have i: "0 < length (device_queue ?w)"
    by (simp add: world_of_def)
  have ns: "\<not> skipped default_args (device_queue ?w ! 0)"
    by (simp add: world_of_def skipped_def instr_def default_args_def no_group_def)
  from retry_exhaustion_ends_run [OF i ns run, of "[1]" "[ep_good]"]
  show ?thesis by simp
qed

text \<open>
  The claim as written, that processing goes on with the next instruction, fails: with two
  instructions queued and a device that never leaves its factory network, the run ends with
  the exit after the tenth attempt, and the second instruction is left as it was although
  its device was there to be provisioned.
\<close>

theorem exhaustion_counterexample:
  "map_option fst
     (provision_list accepts_all default_args None [ep_stuck, ep_good]
        (world_of [instr ''NetA'' 100, instr ''NetB'' 101] [node_D]))
     = Some (Some (SysExit AttemptsExhausted))
   \<and> map_option (device_queue \<circ> snd)
     (provision_list accepts_all default_args None [ep_stuck, ep_good]
        (world_of [instr ''NetA'' 100, instr ''NetB'' 101] [node_D]))
     = Some [(instr ''NetA'' 100)\<lparr>factory_ssid := Some ''shelly1-0001'',
                                   InProgressTime := Some 200\<rparr>,
             instr ''NetB'' 101]"
  by code_simp

section \<open>Lifecycle timestamps of a run\<close>

lemma ts_ok_chain:
  "ts_ok rec \<Longrightarrow> InsertTime rec = Some t0 \<Longrightarrow> ConfirmedTime rec = Some t3 \<Longrightarrow>
     \<exists>t1 t2. InProgressTime rec = Some t1 \<and> CompletedTime rec = Some t2 \<and>
             t0 \<le> t1 \<and> t1 \<le> t2 \<and> t2 \<le> t3"
  by (auto simp: ts_ok_def le_opt_def follows_def split: option.splits)

lemma ts_ok_prefix:
  "ts_ok rec \<Longrightarrow> (ConfirmedTime rec \<noteq> None \<longrightarrow> CompletedTime rec \<noteq> None) \<and>
                 (CompletedTime rec \<noteq> None \<longrightarrow> InProgressTime rec \<noteq> None)"
  by (auto simp: ts_ok_def follows_def split: option.splits)

lemma clock_ok_cong:
  assumes m: "map InsertTime q = map InsertTime q'"
  shows "clock_ok q ep = clock_ok q' ep"
proof -
  have "list_all (\<lambda>rec. le_opt (InsertTime rec) (Some (t_in_progress ep))) q
          = list_all (\<lambda>t. le_opt t (Some (t_in_progress ep))) (map InsertTime q)"
    by (simp add: list_all_iff)
  also have "\<dots> = list_all (\<lambda>t. le_opt t (Some (t_in_progress ep))) (map InsertTime q')"
    by (simp only: m)
  also have "\<dots> = list_all (\<lambda>rec. le_opt (InsertTime rec) (Some (t_in_progress ep))) q'"
    by (simp add: list_all_iff)
  finally show ?thesis by (simp add: clock_ok_def)
qed

lemma list_all_update: "list_all P xs \<Longrightarrow> P y \<Longrightarrow> list_all P (xs[i := y])"
  by (auto simp: list_all_iff dest: set_update_subset_insert [THEN subsetD])

lemma map_update_same: "f y = f (xs ! i) \<Longrightarrow> map f (xs[i := y]) = map f xs"
  by (cases "i < length xs") (simp_all add: map_update list_update_same_conv list_update_beyond)

lemma provision_one_ts:
  assumes run: "provision_one rejects a nv roles k ep w = Some (r, w')"
    and k: "k < length (device_queue w)"
    and ns: "\<not> skipped a (device_queue w ! k)"
    and inv: "list_all ts_ok (device_queue w)"
    and clock: "clock_ok (device_queue w) ep"
  shows "list_all ts_ok (device_queue w') \<and> list_all ts_ok (queue_file w') \<and>
         map InsertTime (device_queue w') = map InsertTime (device_queue w) \<and>
         length (device_queue w') = length (device_queue w) \<and>
         (\<forall>j. j \<noteq> k \<longrightarrow> device_queue w' ! j = device_queue w ! j) \<and>
         (r = None \<longrightarrow> complete (device_queue w' ! k))"
proof -
  let ?old = "device_queue w ! k"
  from ns have c0: "CompletedTime ?old = None" by (simp add: skipped_def)
  from inv k have "ts_ok ?old" by (simp add: list_all_length)
  with c0 have f0: "ConfirmedTime ?old = None"
    by (auto simp: ts_ok_def follows_def split: option.splits)
  from clock k have ins: "le_opt (InsertTime ?old) (Some (t_in_progress ep))"
    and t12: "t_in_progress ep \<le> t_completed ep" and t23: "t_completed ep \<le> t_confirmed ep"
    by (simp_all add: clock_ok_def list_all_length)
  from provision_one_shape [OF run k] obtain ra rb where s:
    "device_queue w' = (device_queue w)[k := ra]"
    "queue_file w' = (device_queue w)[k := rb]"
    "InsertTime ra = InsertTime ?old" "InsertTime rb = InsertTime ?old"
    "InProgressTime ra = Some (t_in_progress ep)" "InProgressTime rb = Some (t_in_progress ep)"
    "CompletedTime rb = (if r = None \<or> r = Some (Raised TypeError) \<or> r = Some (Raised UnboundLocalError)
                               then Some (t_completed ep) else CompletedTime ?old)"
    "ConfirmedTime rb = ConfirmedTime ?old"
    "(r \<noteq> None \<and> ra = rb \<and> device_db w' = device_db w \<and> db_file w' = db_file w)
      \<or> ((r = Some (Raised JSONDecodeError) \<or> r = Some (SysExit DeviceNotFound)) \<and>
          CompletedTime ra = Some (t_completed ep) \<and>
          ConfirmedTime ra = ConfirmedTime ?old \<and>
          device_db w' = device_db w \<and> db_file w' = db_file w)
      \<or> ((r = None \<or> r = Some (Raised TypeError) \<or> r = Some (Raised UnboundLocalError)) \<and>
          CompletedTime ra = Some (t_completed ep) \<and>
          ConfirmedTime ra = Some (t_confirmed ep))"
    by blast
  have okb: "ts_ok rb"
    using s(4,6,7,8) c0 f0 ins t12
    by (auto simp: ts_ok_def le_opt_def follows_def split: option.splits)
  have oka: "ts_ok ra"
    using s(9) okb s(3,5) c0 f0 ins t12 t23
    by (auto simp: ts_ok_def le_opt_def follows_def split: option.splits)
  have 1: "list_all ts_ok (device_queue w')"
    unfolding s(1) using inv oka by (rule list_all_update)
  have 2: "list_all ts_ok (queue_file w')"
    unfolding s(2) using inv okb by (rule list_all_update)
  have 3: "map InsertTime (device_queue w') = map InsertTime (device_queue w)"
    unfolding s(1) using s(3) by (rule map_update_same)
  have 4: "length (device_queue w') = length (device_queue w)"
    unfolding s(1) by simp
  have 5: "\<forall>j. j \<noteq> k \<longrightarrow> device_queue w' ! j = device_queue w ! j"
    unfolding s(1) by simp
  have 6: "r = None \<longrightarrow> complete (device_queue w' ! k)"
    unfolding s(1) using s(5,9) k by (auto simp: complete_def)
  from 1 2 3 4 5 6 show ?thesis by blast
qed


lemma complete_skipped: "complete rec \<Longrightarrow> skipped a rec"
  by (simp add: complete_def skipped_def)

lemma provision_loop_ts:
  assumes "provision_loop rejects a nv roles js eps w = Some (r, w')"
    and "\<forall>k \<in> set js. k < length (device_queue w)"
    and "list_all ts_ok (device_queue w)" and "list_all ts_ok (queue_file w)"
    and "list_all (clock_ok (device_queue w)) eps"
  shows "list_all ts_ok (device_queue w') \<and> list_all ts_ok (queue_file w') \<and>
         length (device_queue w') = length (device_queue w) \<and>
         (\<forall>i. complete (device_queue w ! i) \<longrightarrow> complete (device_queue w' ! i)) \<and>
         (r = None \<longrightarrow> (\<forall>i \<in> set js. \<not> skipped a (device_queue w ! i) \<longrightarrow>
                                 complete (device_queue w' ! i)))"
  using assms
proof (induction js arbitrary: eps w)
  case Nil
  then show ?case by simp
next
  case (Cons k ks)
  show ?case
  proof (cases "skipped a (device_queue w ! k)")
    case True
    with Cons.prems have run: "provision_loop rejects a nv roles ks eps w = Some (r, w')"
      by simp
    from Cons.prems(2) have "\<forall>k \<in> set ks. k < length (device_queue w)" by simp
    from Cons.IH [OF run this Cons.prems(3,4,5)] True show ?thesis
      by auto
  next
    case False
    with Cons.prems(1) obtain ep eps' where eps: "eps = ep # eps'"
      by (cases eps) auto
    with False Cons.prems(1) obtain r1 w1 where one:
      "provision_one rejects a nv roles k ep w = Some (r1, w1)"
      by (cases "provision_one rejects a nv roles k ep w") auto
    from Cons.prems(2) have k: "k < length (device_queue w)" by simp
    from Cons.prems(5) eps have ck: "clock_ok (device_queue w) ep"
      and cks: "list_all (clock_ok (device_queue w)) eps'"
      by simp_all
    from provision_one_ts [OF one k False Cons.prems(3) ck] have s:
      "list_all ts_ok (device_queue w1)" "list_all ts_ok (queue_file w1)"
      "map InsertTime (device_queue w1) = map InsertTime (device_queue w)"
      "length (device_queue w1) = length (device_queue w)"
      "\<forall>j. j \<noteq> k \<longrightarrow> device_queue w1 ! j = device_queue w ! j"
      "r1 = None \<longrightarrow> complete (device_queue w1 ! k)"
      by blast+
    have keep: "complete (device_queue w1 ! i)" if "complete (device_queue w ! i)" for i
    proof -
      from that False have "i \<noteq> k" by (auto dest: complete_skipped)
      with s(5) that show ?thesis by simp
    qed
    show ?thesis
    proof (cases r1)
      case (Some e)
      with Cons.prems(1) False eps one have "r = Some e" "w' = w1" by simp_all
      with s keep show ?thesis by simp
    next
      case None
      with Cons.prems(1) False eps one
      have run: "provision_loop rejects a nv roles ks eps' w1 = Some (r, w')"
        by simp
      from Cons.prems(2) s(4) have b: "\<forall>k \<in> set ks. k < length (device_queue w1)" by simp
      have "list_all (clock_ok (device_queue w1)) eps' = list_all (clock_ok (device_queue w)) eps'"
        using clock_ok_cong [OF s(3)] by (simp add: list_all_iff)
      with cks have c1: "list_all (clock_ok (device_queue w1)) eps'" by simp
      from Cons.IH [OF run b s(1,2) c1] have ih:
        "list_all ts_ok (device_queue w')" "list_all ts_ok (queue_file w')"
        "length (device_queue w') = length (device_queue w1)"
        "\<forall>i. complete (device_queue w1 ! i) \<longrightarrow> complete (device_queue w' ! i)"
        "r = None \<longrightarrow> (\<forall>i \<in> set ks. \<not> skipped a (device_queue w1 ! i) \<longrightarrow>
                                 complete (device_queue w' ! i))"
        by blast+
      have fin: "complete (device_queue w' ! i)"
        if "r = None" "i \<in> set (k # ks)" "\<not> skipped a (device_queue w ! i)" for i
      proof (cases "i = k")
        case True
        with s(6) None ih(4) show ?thesis by simp
      next
        case False
        with that s(5) have "i \<in> set ks" "\<not> skipped a (device_queue w1 ! i)" by simp_all
        with ih(5) that(1) show ?thesis by simp
      qed
      from ih(1,2,3) s(4) ih(4) keep fin show ?thesis by auto
    qed
  qed
qed

text \<open>
  C8. Take a run of \<^verbatim>\<open>provision_list\<close> that ends, normally or not, on a queue whose
  records have their timestamps in order, with a clock that does not run backwards and
  imports that came before the run. Then every record, in memory and in the queue file, has
  its timestamps in order: with \<^verbatim>\<open>InsertTime\<close> and \<^verbatim>\<open>ConfirmedTime\<close> present the
  other two are present and InsertTime \<open>\<le>\<close> InProgressTime \<open>\<le>\<close> CompletedTime \<open>\<le>\<close>
  ConfirmedTime, and a record without the timestamp of a phase has none of a later phase.
  When the run ends normally, every instruction that was not skipped carries all three
  timestamps of the run.
\<close>

theorem timestamps_ordered:
  assumes run: "provision_list rejects a nv eps w = Some (r, w')"
    and q: "list_all ts_ok (device_queue w)" and f: "list_all ts_ok (queue_file w)"
    and c: "list_all (clock_ok (device_queue w)) eps"
  shows "list_all ts_ok (device_queue w') \<and> list_all ts_ok (queue_file w') \<and>
         (\<forall>rec \<in> set (device_queue w') \<union> set (queue_file w'). \<forall>t0 t3.
            InsertTime rec = Some t0 \<and> ConfirmedTime rec = Some t3 \<longrightarrow>
              (\<exists>t1 t2. InProgressTime rec = Some t1 \<and> CompletedTime rec = Some t2 \<and>
                       t0 \<le> t1 \<and> t1 \<le> t2 \<and> t2 \<le> t3)) \<and>
         (\<forall>rec \<in> set (device_queue w') \<union> set (queue_file w').
            (InProgressTime rec = None \<longrightarrow> CompletedTime rec = None) \<and>
            (CompletedTime rec = None \<longrightarrow> ConfirmedTime rec = None)) \<and>
         (r = None \<longrightarrow>
            (\<forall>i < length (device_queue w). \<not> skipped a (device_queue w ! i) \<longrightarrow>
               complete (device_queue w' ! i)))"
proof -
  have inv: "list_all ts_ok (device_queue w') \<and> list_all ts_ok (queue_file w') \<and>
         (r = None \<longrightarrow>
            (\<forall>i < length (device_queue w). \<not> skipped a (device_queue w ! i) \<longrightarrow>
               complete (device_queue w' ! i)))"
  proof (cases "check_for_device_queue (device_queue w) (group a)")
    case (Some e)
    with run have "r = Some e" "w' = w" by (simp_all add: provision_list_def)
    with q f show ?thesis by simp
  next
    case None
    note chk = this
    show ?thesis
    proof (cases "ddwrt_choose_roles (nodes w)")
      case (Inl e)
      with run chk have "r = Some e" "w' = w" by (simp_all add: provision_list_def)
      with q f show ?thesis by simp
    next
      case (Inr roles)
      let ?w = "w\<lparr>setup_count := 0, success_count := 0\<rparr>"
      from run chk Inr have l:
        "provision_loop rejects a nv roles [0..<length (device_queue ?w)] eps ?w = Some (r, w')"
        by (simp add: provision_list_def)
      have b: "\<forall>k \<in> set [0..<length (device_queue ?w)]. k < length (device_queue ?w)" by simp
      from q f c have "list_all ts_ok (device_queue ?w)" "list_all ts_ok (queue_file ?w)"
        "list_all (clock_ok (device_queue ?w)) eps"
        by simp_all
      from provision_loop_ts [OF l b this] show ?thesis by simp
    qed
  qed
  then have all: "\<forall>rec \<in> set (device_queue w') \<union> set (queue_file w'). ts_ok rec"
    by (auto simp: list_all_iff)
  have chain: "\<forall>rec \<in> set (device_queue w') \<union> set (queue_file w'). \<forall>t0 t3.
            InsertTime rec = Some t0 \<and> ConfirmedTime rec = Some t3 \<longrightarrow>
              (\<exists>t1 t2. InProgressTime rec = Some t1 \<and> CompletedTime rec = Some t2 \<and>
                       t0 \<le> t1 \<and> t1 \<le> t2 \<and> t2 \<le> t3)"
    using all ts_ok_chain by blast
  have prefix: "\<forall>rec \<in> set (device_queue w') \<union> set (queue_file w').
            (InProgressTime rec = None \<longrightarrow> CompletedTime rec = None) \<and>
            (CompletedTime rec = None \<longrightarrow> ConfirmedTime rec = None)"
    using all ts_ok_prefix by blast
  from inv chain prefix show ?thesis by blast
qed


theorem timestamps_ordered_witness:
  "map_option fst
     (provision_list accepts_all default_args None [ep_good]
        (world_of [instr ''TestNet'' 100] [node_D])) = Some None
   \<and> list_all ts_ok (device_queue (snd (the
        (provision_list accepts_all default_args None [ep_good]
           (world_of [instr ''TestNet'' 100] [node_D])))))
   \<and> complete (device_queue (snd (the
        (provision_list accepts_all default_args None [ep_good]
           (world_of [instr ''TestNet'' 100] [node_D])))) ! 0)
   \<and> map_option (map InProgressTime \<circ> device_queue \<circ> snd)
        (provision_list accepts_all default_args None [ep_good]
           (world_of [instr ''TestNet'' 100] [node_D])) = Some [Some 1000]
   \<and> map_option (map CompletedTime \<circ> device_queue \<circ> snd)
        (provision_list accepts_all default_args None [ep_good]
           (world_of [instr ''TestNet'' 100] [node_D])) = Some [Some 1010]
   \<and> map_option (map ConfirmedTime \<circ> device_queue \<circ> snd)
        (provision_list accepts_all default_args None [ep_good]
           (world_of [instr ''TestNet'' 100] [node_D])) = Some [Some 1011]"
proof -
  let ?w = "world_of [instr ''TestNet'' 100] [node_D]"
  let ?X = "provision_list accepts_all default_args None [ep_good] ?w"
  have r: "map_option fst ?X = Some None"
    by code_simp
  then have run: "?X = Some (None, snd (the ?X))"
    by (cases ?X) auto
  have q: "list_all ts_ok (device_queue ?w)" and f: "list_all ts_ok (queue_file ?w)"
    by (simp_all add: world_of_def instr_def ts_ok_def le_opt_def follows_def)
  have c: "list_all (clock_ok (device_queue ?w)) [ep_good]"
    by (simp add: world_of_def instr_def clock_ok_def le_opt_def ep_good_def)
  have i: "0 < length (device_queue ?w)"
    and ns: "\<not> skipped default_args (device_queue ?w ! 0)"
    by (simp_all add: world_of_def skipped_def instr_def default_args_def no_group_def)
  from timestamps_ordered [OF run q f c] i ns
  have "list_all ts_ok (device_queue (snd (the ?X)))"
    and "complete (device_queue (snd (the ?X)) ! 0)"
    by blast+
  moreover have "map_option (map InProgressTime \<circ> device_queue \<circ> snd) ?X = Some [Some 1000]"
    by code_simp
  moreover have "map_option (map CompletedTime \<circ> device_queue \<circ> snd) ?X = Some [Some 1010]"
    by code_simp
  moreover have "map_option (map ConfirmedTime \<circ> device_queue \<circ> snd) ?X = Some [Some 1011]"
    by code_simp
  ultimately show ?thesis using r by simp
qed

end
